theory Spec2Isabelle
  imports Complex_Main "HOL-Library.AList"
begin

section \<open>Strings, bytes and Python dictionaries\<close>

text \<open>
  A Python \<open>str\<close> is modelled by its UTF-8 bytes (\<^typ>\<open>string\<close>); equality of strings is
  equality of the byte sequences. A \<open>Dict[str, str]\<close> is an association list in insertion
  order; a well-formed dictionary has distinct keys. \<open>d.get(k)\<close> is \<open>dict_get d k\<close>,
  \<open>d[k] = v\<close> is \<open>AList.update k v d\<close> (the position of an existing key is kept, a new key
  goes to the end), and \<open>d.update(e)\<close> sets the items of \<open>e\<close> one after the other.
\<close>

datatype error = IntegrityError | JSONDecodeError

type_synonym pydict = "(string \<times> string) list"

definition dict_get :: "pydict \<Rightarrow> string \<Rightarrow> string option" where
  "dict_get d k = map_of d k"

definition dict_update :: "pydict \<Rightarrow> pydict \<Rightarrow> pydict" where
  "dict_update d e = fold (\<lambda>(k, v) acc. AList.update k v acc) e d"

definition dict_keys :: "pydict \<Rightarrow> string list" where
  "dict_keys d = map fst d"

text \<open>\<open>bytes.hex()\<close>: two lower-case hexadecimal digits per byte.\<close>

definition hexdigit :: "nat \<Rightarrow> char" where
  "hexdigit n = ''0123456789abcdef'' ! (n mod 16)"

definition byte_hex :: "char \<Rightarrow> string" where
  "byte_hex c = [hexdigit ((of_char c :: nat) div 16), hexdigit ((of_char c :: nat) mod 16)]"

definition hex :: "string \<Rightarrow> string" where
  "hex bs = concat (map byte_hex bs)"

section \<open>The JSON text of the extra fields\<close>

text \<open>
  \<open>json.dumps(extra_fields, ensure_ascii=False)\<close> on a \<open>Dict[str, str]\<close>: the items in
  order, separated by \<open>", "\<close>, key and value separated by \<open>": "\<close>, each string between
  double quotes with the escapes of \<open>json.encoder.ESCAPE_DCT\<close> (backslash, double quote,
  \<open>\b \f \n \r \t\<close>, and \<open>\u00XX\<close> for the other bytes below \<open>0x20\<close>); every other
  byte is copied, so the UTF-8 bytes of a non-ASCII character pass through unchanged.
\<close>

abbreviation (input) DQUOTE :: char where "DQUOTE \<equiv> CHR 0x22"
abbreviation (input) BSLASH :: char where "BSLASH \<equiv> CHR 0x5C"

definition escape_char :: "char \<Rightarrow> string" where
  "escape_char c =
     (if c = BSLASH then [BSLASH, BSLASH]
      else if c = DQUOTE then [BSLASH, DQUOTE]
      else if c = CHR 0x08 then [BSLASH, CHR ''b'']
      else if c = CHR 0x0C then [BSLASH, CHR ''f'']
      else if c = CHR 0x0A then [BSLASH, CHR ''n'']
      else if c = CHR 0x0D then [BSLASH, CHR ''r'']
      else if c = CHR 0x09 then [BSLASH, CHR ''t'']
      else if (of_char c :: nat) < 0x20
        then [BSLASH, CHR ''u'', CHR ''0'', CHR ''0'',
              hexdigit ((of_char c :: nat) div 16), hexdigit ((of_char c :: nat) mod 16)]
      else [c])"

definition encode_basestring :: "string \<Rightarrow> string" where
  "encode_basestring s = DQUOTE # concat (map escape_char s) @ [DQUOTE]"

fun dump_items :: "pydict \<Rightarrow> string" where
  "dump_items [] = []"
| "dump_items [(k, v)] = encode_basestring k @ '': '' @ encode_basestring v"
| "dump_items ((k, v) # kvs) =
     encode_basestring k @ '': '' @ encode_basestring v @ '', '' @ dump_items kvs"

definition json_dumps :: "pydict \<Rightarrow> string" where
  "json_dumps d = ''{'' @ dump_items d @ ''}''"

text \<open>
  \<open>json.loads\<close>, for the documents the store holds: an object whose values are strings,
  with the white space, the escapes and the strictness (no raw control character inside a
  string, nothing but white space after the closing brace) of \<open>json.decoder\<close>. A
  \<open>\uXXXX\<close> escape is decoded to the UTF-8 bytes of the code point. Any other text (a
  value that is not a string, a surrogate escape, a document that is not an object) is
  outside the model and is reported as a decoding error. A key that occurs twice keeps its
  first position and its last value, as \<open>dict\<close> does.
\<close>

definition hexval :: "char \<Rightarrow> nat option" where
  "hexval c =
     (let n = (of_char c :: nat) in
      if 0x30 \<le> n \<and> n \<le> 0x39 then Some (n - 0x30)
      else if 0x61 \<le> n \<and> n \<le> 0x66 then Some (n - 0x61 + 10)
      else if 0x41 \<le> n \<and> n \<le> 0x46 then Some (n - 0x41 + 10)
      else None)"

fun decode_hex :: "nat \<Rightarrow> string \<Rightarrow> nat option" where
  "decode_hex acc [] = Some acc"
| "decode_hex acc (c # cs) =
     (case hexval c of None \<Rightarrow> None | Some d \<Rightarrow> decode_hex (16 * acc + d) cs)"

definition decode_uXXXX :: "string \<Rightarrow> nat option" where
  "decode_uXXXX esc = (if length esc = 4 then decode_hex 0 esc else None)"

definition utf8_encode :: "nat \<Rightarrow> string option" where
  "utf8_encode cp =
     (if cp < 0x80 then Some [char_of cp]
      else if cp < 0x800 then Some [char_of (0xC0 + cp div 64), char_of (0x80 + cp mod 64)]
      else if 0xD800 \<le> cp \<and> cp \<le> 0xDFFF then None
      else Some [char_of (0xE0 + cp div 4096), char_of (0x80 + (cp div 64) mod 64),
                 char_of (0x80 + cp mod 64)])"

definition unescape :: "char \<Rightarrow> char option" where
  "unescape e =
     (if e = DQUOTE then Some DQUOTE
      else if e = BSLASH then Some BSLASH
      else if e = CHR ''/'' then Some CHR ''/''
      else if e = CHR ''b'' then Some (CHR 0x08)
      else if e = CHR ''f'' then Some (CHR 0x0C)
      else if e = CHR ''n'' then Some (CHR 0x0A)
      else if e = CHR ''r'' then Some (CHR 0x0D)
      else if e = CHR ''t'' then Some (CHR 0x09)
      else None)"

function scanstring :: "string \<Rightarrow> (string \<times> string) option" where
  "scanstring [] = None"
| "scanstring (c # cs) =
     (if c = DQUOTE then Some ([], cs)
      else if c = BSLASH then
        (case cs of
           [] \<Rightarrow> None
         | e # cs' \<Rightarrow>
             if e = CHR ''u'' then
               (case decode_uXXXX (take 4 cs') of
                  None \<Rightarrow> None
                | Some cp \<Rightarrow>
                    (case utf8_encode cp of
                       None \<Rightarrow> None
                     | Some bs \<Rightarrow>
                         (case scanstring (drop 4 cs') of
                            None \<Rightarrow> None
                          | Some (s, rest) \<Rightarrow> Some (bs @ s, rest))))
             else
               (case unescape e of
                  None \<Rightarrow> None
                | Some x \<Rightarrow>
                    (case scanstring cs' of
                       None \<Rightarrow> None
                     | Some (s, rest) \<Rightarrow> Some (x # s, rest))))
      else if (of_char c :: nat) < 0x20 then None
      else (case scanstring cs of
              None \<Rightarrow> None
            | Some (s, rest) \<Rightarrow> Some (c # s, rest)))"
  by pat_completeness auto
termination
  by (relation "measure length") auto

lemma scanstring_shorter: "scanstring s = Some (x, r) \<Longrightarrow> length r < length s"
proof (induction s arbitrary: x r rule: scanstring.induct)
  case 1
  then show ?case by simp
next
  case (2 c cs)
  then show ?case
    by (fastforce split: if_splits list.splits option.splits)
qed

definition skip_ws :: "string \<Rightarrow> string" where
  "skip_ws s = dropWhile (\<lambda>c. c = CHR 0x20 \<or> c = CHR 0x09 \<or> c = CHR 0x0A \<or> c = CHR 0x0D) s"

lemma skip_ws_length: "length (skip_ws s) \<le> length s"
  by (simp add: skip_ws_def length_dropWhile_le)

function parse_members :: "string \<Rightarrow> (pydict \<times> string) option" where
  "parse_members [] = None"
| "parse_members (c # s1) =
     (if c \<noteq> DQUOTE then None
      else
        (case scanstring s1 of
           None \<Rightarrow> None
         | Some (key, s2) \<Rightarrow>
             (case skip_ws s2 of
                [] \<Rightarrow> None
              | c2 # s3 \<Rightarrow>
                  if c2 \<noteq> CHR '':'' then None
                  else
                    (case skip_ws s3 of
                       [] \<Rightarrow> None
                     | c3 # s4 \<Rightarrow>
                         if c3 \<noteq> DQUOTE then None
                         else
                           (case scanstring s4 of
                              None \<Rightarrow> None
                            | Some (val, s5) \<Rightarrow>
                                (case skip_ws s5 of
                                   [] \<Rightarrow> None
                                 | c5 # s6 \<Rightarrow>
                                     if c5 = CHR ''}'' then Some ([(key, val)], s6)
                                     else if c5 = CHR '','' then
                                       (case parse_members (skip_ws s6) of
                                          None \<Rightarrow> None
                                        | Some (kvs, rest) \<Rightarrow> Some ((key, val) # kvs, rest))
                                     else None))))))"
  by pat_completeness auto
termination
proof (relation "measure length", goal_cases)
  case 1
  then show ?case by simp
next
  case (2 c s1 x2 key s2 c2 s3 c3 s4 x2a val s5 c5 s6)
  have a: "length s2 < length s1" using 2 scanstring_shorter by auto
  have b: "length s3 < length s2" using 2 skip_ws_length [of s2] by auto
  have c: "length s4 < length s3" using 2 skip_ws_length [of s3] by auto
  have d: "length s5 < length s4" using 2 scanstring_shorter by auto
  have e: "length s6 < length s5" using 2 skip_ws_length [of s5] by auto
  have f: "length (skip_ws s6) \<le> length s6" by (rule skip_ws_length)
  show ?case using a b c d e f by simp
qed

definition json_loads :: "string \<Rightarrow> error + pydict" where
  "json_loads s =
     (case skip_ws s of
        [] \<Rightarrow> Inl JSONDecodeError
      | c # s1 \<Rightarrow>
          if c \<noteq> CHR ''{'' then Inl JSONDecodeError
          else
            (case skip_ws s1 of
               [] \<Rightarrow> Inl JSONDecodeError
             | c1 # s2 \<Rightarrow>
                 if c1 = CHR ''}'' then (if skip_ws s2 = [] then Inr [] else Inl JSONDecodeError)
                 else
                   (case parse_members (c1 # s2) of
                      None \<Rightarrow> Inl JSONDecodeError
                    | Some (kvs, rest) \<Rightarrow>
                        if skip_ws rest = [] then Inr (dict_update [] kvs)
                        else Inl JSONDecodeError)))"

section \<open>The storage file\<close>

text \<open>
  The user and client tables of \<open>_ensure_db\<close> (the settings table plays no part in the
  properties below and is left out); a column \<open>TEXT\<close> that may be \<open>NULL\<close> is a
  \<^typ>\<open>string option\<close>, a \<open>NOT NULL\<close> column a \<^typ>\<open>string\<close>. Both \<open>id\<close> columns are
  \<open>INTEGER PRIMARY KEY AUTOINCREMENT\<close>: the store keeps, per table, the largest row id it
  has ever handed out (\<open>sqlite_sequence\<close>), and a new row gets one more than the larger of
  that and the largest id in the table. Row ids are unbounded integers here; the limit of
  SQLite at \<open>2^63 - 1\<close> rows is not part of the model.
\<close>

record user_row =
  u_id :: int
  u_username :: string
  u_password_hash :: string
  u_salt :: string

record client_row =
  c_id :: int
  c_kundennummer :: string
  c_ma :: "string option"
  c_name :: "string option"
  c_strasse :: "string option"
  c_plz :: "string option"
  c_ort :: "string option"
  c_geburtsdatum :: "string option"
  c_pg :: "string option"
  c_versicherungsnummer :: "string option"
  c_pflegekasse :: "string option"
  c_telefon :: "string option"
  c_preise :: "string option"
  c_fahrtkosten :: "string option"
  c_bemerkungen :: "string option"
  c_extra_fields :: "string option"

record db =
  users_table :: "user_row list"
  users_seq :: int
  clients_table :: "client_row list"
  clients_seq :: int

text \<open>The state \<open>_ensure_db\<close> leaves behind on a new file: the tables exist and are empty.\<close>

definition init_db :: db where
  "init_db = \<lparr>users_table = [], users_seq = 0, clients_table = [], clients_seq = 0\<rparr>"

text \<open>\<open>SELECT MAX(id)\<close>: \<open>NULL\<close> on an empty table.\<close>

fun sql_max :: "int list \<Rightarrow> int option" where
  "sql_max [] = None"
| "sql_max (x # xs) = (case sql_max xs of None \<Rightarrow> Some x | Some m \<Rightarrow> Some (max x m))"

definition next_rowid :: "int \<Rightarrow> int list \<Rightarrow> int" where
  "next_rowid seq ids = max seq (case sql_max ids of None \<Rightarrow> 0 | Some m \<Rightarrow> m) + 1"

section \<open>Credential store\<close>

text \<open>
  \<open>hashlib.pbkdf2_hmac\<close> is a library function; it is a parameter \<open>pbkdf2_hmac\<close> of the
  model, taking the hash name, the password bytes, the salt bytes and the iteration count.
  \<open>secrets.token_hex(n)\<close> draws \<open>n\<close> bytes from the operating system and returns them in
  hexadecimal; the bytes drawn are the parameter \<open>entropy\<close>.
\<close>

type_synonym kdf = "string \<Rightarrow> string \<Rightarrow> string \<Rightarrow> nat \<Rightarrow> string"

definition hash_password :: "kdf \<Rightarrow> string \<Rightarrow> string \<Rightarrow> string" where
  "hash_password pbkdf2_hmac password salt = hex (pbkdf2_hmac ''sha256'' password salt 120000)"

definition token_hex :: "nat \<Rightarrow> string \<Rightarrow> string" where
  "token_hex nbytes entropy = hex (take nbytes entropy)"

definition create_user :: "kdf \<Rightarrow> string \<Rightarrow> db \<Rightarrow> string \<Rightarrow> string \<Rightarrow> bool \<times> db" where
  "create_user pbkdf2_hmac entropy st username password =
     (let salt = token_hex 16 entropy;
          password_hash = hash_password pbkdf2_hmac password salt
      in if username \<in> set (map u_username (users_table st))
         then (False, st)
         else let new_id = next_rowid (users_seq st) (map u_id (users_table st))
              in (True, st\<lparr>users_table := users_table st @
                        [\<lparr>u_id = new_id, u_username = username,
                          u_password_hash = password_hash, u_salt = salt\<rparr>],
                      users_seq := new_id\<rparr>))"

definition validate_user :: "kdf \<Rightarrow> db \<Rightarrow> string \<Rightarrow> string \<Rightarrow> bool" where
  "validate_user pbkdf2_hmac st username password =
     (case find (\<lambda>r. u_username r = username) (users_table st) of
        None \<Rightarrow> False
      | Some row \<Rightarrow> u_password_hash row = hash_password pbkdf2_hmac password (u_salt row))"

section \<open>Record store\<close>

text \<open>Decimal digits of a natural number, and \<open>f"{n:05d}"\<close>: the sign, then the digits
  padded with zeros to a width of at least five characters in all.\<close>

fun decimal :: "nat \<Rightarrow> string" where
  "decimal n =
     (if n < 10 then [char_of (48 + n)]
      else decimal (n div 10) @ [char_of (48 + n mod 10)])"

declare decimal.simps [simp del]

definition zfill :: "nat \<Rightarrow> string \<Rightarrow> string" where
  "zfill width s = replicate (width - length s) CHR ''0'' @ s"

definition format_05d :: "int \<Rightarrow> string" where
  "format_05d n =
     (if n < 0 then CHR ''-'' # zfill 4 (decimal (nat (- n)))
      else zfill 5 (decimal (nat n)))"

text \<open>\<open>row[0] or 0\<close>: \<open>None\<close> and \<open>0\<close> are both falsy.\<close>

definition or_zero :: "int option \<Rightarrow> int" where
  "or_zero x = (case x of None \<Rightarrow> 0 | Some m \<Rightarrow> if m = 0 then 0 else m)"

definition next_kundennummer :: "db \<Rightarrow> string" where
  "next_kundennummer st =
     (let row0 = sql_max (map c_id (clients_table st));
          next_id = or_zero row0 + 1
      in ''K-'' @ format_05d next_id)"

text \<open>
  \<open>save_client\<close>: the identifier is the caller's unless that is missing or empty
  (\<open>data.get("kundennummer") or self._next_kundennummer()\<close>); a missing fixed field is
  written as \<open>NULL\<close>. The \<open>UNIQUE\<close> constraint on \<open>kundennummer\<close> makes the insert raise
  \<open>sqlite3.IntegrityError\<close>; the statement is then rolled back and the file is as before.
  The result is the exception raised, if any, and the store afterwards.
\<close>

definition save_client :: "db \<Rightarrow> pydict \<Rightarrow> pydict \<Rightarrow> error option \<times> db" where
  "save_client st data extra_fields =
     (let kundennummer =
            (case dict_get data ''kundennummer'' of
               None \<Rightarrow> next_kundennummer st
             | Some v \<Rightarrow> if v = [] then next_kundennummer st else v);
          new_id = next_rowid (clients_seq st) (map c_id (clients_table st));
          row = \<lparr>c_id = new_id,
                 c_kundennummer = kundennummer,
                 c_ma = dict_get data ''ma'',
                 c_name = dict_get data ''name'',
                 c_strasse = dict_get data ''strasse'',
                 c_plz = dict_get data ''plz'',
                 c_ort = dict_get data ''ort'',
                 c_geburtsdatum = dict_get data ''geburtsdatum'',
                 c_pg = dict_get data ''pg'',
                 c_versicherungsnummer = dict_get data ''versicherungsnummer'',
                 c_pflegekasse = dict_get data ''pflegekasse'',
                 c_telefon = dict_get data ''telefon'',
                 c_preise = dict_get data ''preise'',
                 c_fahrtkosten = dict_get data ''fahrtkosten'',
                 c_bemerkungen = dict_get data ''bemerkungen'',
                 c_extra_fields = Some (json_dumps extra_fields)\<rparr>
      in if kundennummer \<in> set (map c_kundennummer (clients_table st))
         then (Some IntegrityError, st)
         else (None, st\<lparr>clients_table := clients_table st @ [row], clients_seq := new_id\<rparr>))"

text \<open>\<open>x or ""\<close> on a column that holds a string or \<open>NULL\<close>.\<close>

definition or_empty :: "string option \<Rightarrow> string" where
  "or_empty x = (case x of None \<Rightarrow> [] | Some v \<Rightarrow> v)"

text \<open>\<open>ORDER BY id DESC\<close>.\<close>

definition order_by_id_desc :: "client_row list \<Rightarrow> client_row list" where
  "order_by_id_desc rows = rev (sort_key c_id rows)"

text \<open>The body of the loop of \<open>list_clients\<close>: the dictionary of the fixed fields, then
  the decoded extra fields merged over it.\<close>

definition fixed_client :: "client_row \<Rightarrow> pydict" where
  "fixed_client row =
     [(''kundennummer'', c_kundennummer row),
      (''ma'', or_empty (c_ma row)),
      (''name'', or_empty (c_name row)),
      (''strasse'', or_empty (c_strasse row)),
      (''plz'', or_empty (c_plz row)),
      (''ort'', or_empty (c_ort row)),
      (''geburtsdatum'', or_empty (c_geburtsdatum row)),
      (''pg'', or_empty (c_pg row)),
      (''versicherungsnummer'', or_empty (c_versicherungsnummer row)),
      (''pflegekasse'', or_empty (c_pflegekasse row)),
      (''telefon'', or_empty (c_telefon row)),
      (''preise'', or_empty (c_preise row)),
      (''fahrtkosten'', or_empty (c_fahrtkosten row)),
      (''bemerkungen'', or_empty (c_bemerkungen row))]"

definition client_of_row :: "client_row \<Rightarrow> error + pydict" where
  "client_of_row row =
     (let client = fixed_client row;
          text = (case c_extra_fields row of
                    None \<Rightarrow> ''{}''
                  | Some t \<Rightarrow> if t = [] then ''{}'' else t)
      in case json_loads text of
           Inl e \<Rightarrow> Inl e
         | Inr extra \<Rightarrow> Inr (dict_update client extra))"

fun clients_of_rows :: "client_row list \<Rightarrow> error + pydict list" where
  "clients_of_rows [] = Inr []"
| "clients_of_rows (row # rows) =
     (case client_of_row row of
        Inl e \<Rightarrow> Inl e
      | Inr client \<Rightarrow>
          (case clients_of_rows rows of
             Inl e \<Rightarrow> Inl e
           | Inr clients \<Rightarrow> Inr (client # clients)))"

definition list_clients :: "db \<Rightarrow> error + pydict list" where
  "list_clients st = clients_of_rows (order_by_id_desc (clients_table st))"

text \<open>Saving a sequence of records one after the other, stopping at the first exception.\<close>

fun save_all :: "db \<Rightarrow> (pydict \<times> pydict) list \<Rightarrow> error option \<times> db" where
  "save_all st [] = (None, st)"
| "save_all st ((data, extra_fields) # rest) =
     (case save_client st data extra_fields of
        (Some e, st') \<Rightarrow> (Some e, st')
      | (None, st') \<Rightarrow> save_all st' rest)"

text \<open>The names of the fourteen fixed fields.\<close>

definition fixed_fields :: "string list" where
  "fixed_fields =
     [''kundennummer'', ''ma'', ''name'', ''strasse'', ''plz'', ''ort'', ''geburtsdatum'', ''pg'',
      ''versicherungsnummer'', ''pflegekasse'', ''telefon'', ''preise'', ''fahrtkosten'',
      ''bemerkungen'']"

section \<open>Document exporter\<close>

text \<open>
  What the user sees and what reaches the disk are results of the model: a message box is
  a \<open>notice\<close>, a file written is returned with its content. The path chosen in the file
  dialog is a parameter; the empty path is a cancelled dialog.
\<close>

datatype notice =
    ShowInfo string string
  | ShowWarning string string
  | ShowError string string

type_synonym sheet = "string list list"

record excel_outcome =
  x_store :: db
  x_written :: "(string \<times> sheet) option"
  x_notices :: "notice list"

definition dict_get_or :: "pydict \<Rightarrow> string \<Rightarrow> string \<Rightarrow> string" where
  "dict_get_or d k dflt = (case dict_get d k of None \<Rightarrow> dflt | Some v \<Rightarrow> v)"

definition export_excel :: "db \<Rightarrow> string \<Rightarrow> error + excel_outcome" where
  "export_excel st file_path =
     (case list_clients st of
        Inl e \<Rightarrow> Inl e
      | Inr clients \<Rightarrow>
          (case clients of
             [] \<Rightarrow>
               Inr \<lparr>x_store = st, x_written = None,
                    x_notices = [ShowInfo ''Hinweis'' ''Keine Kunden zum Exportieren.'']\<rparr>
           | first # _ \<Rightarrow>
               let headers = dict_keys first;
                   sheet = headers # map (\<lambda>client. map (\<lambda>h. dict_get_or client h []) headers) clients
               in if file_path = []
                  then Inr \<lparr>x_store = st, x_written = None, x_notices = []\<rparr>
                  else Inr \<lparr>x_store = st, x_written = Some (file_path, sheet),
                            x_notices = [ShowInfo ''Erfolg''
                                           (''Excel wurde gespeichert: '' @ file_path)]\<rparr>))"

text \<open>
  The page description canvas of the PDF library: drawing operations go to the code of
  the current page, \<open>showPage\<close> closes the page and starts an empty one, \<open>save\<close> closes
  a page that has code and writes the file. Coordinates are points; the floating-point
  numbers of the source are exact rationals here (the page height is only ever reduced by
  whole numbers, which is exact on the doubles involved as well). \<open>A4\<close> is the library's
  page size of 210 mm by 297 mm at 72 points per inch.
\<close>

datatype pdf_op =
    SetFont string nat
  | SetFillColorRGB rat rat rat
  | DrawString rat rat string
  | SetLineWidth nat
  | Line rat rat rat rat

record canvas =
  cv_filename :: string
  cv_pagesize :: "rat \<times> rat"
  cv_code :: "pdf_op list"
  cv_pages :: "pdf_op list list"

definition A4 :: "rat \<times> rat" where
  "A4 = (210 * (720 / 254), 297 * (720 / 254))"

definition Canvas :: "string \<Rightarrow> rat \<times> rat \<Rightarrow> canvas" where
  "Canvas filename pagesize =
     \<lparr>cv_filename = filename, cv_pagesize = pagesize, cv_code = [], cv_pages = []\<rparr>"

definition emit :: "pdf_op \<Rightarrow> canvas \<Rightarrow> canvas" where
  "emit op pdf = pdf\<lparr>cv_code := cv_code pdf @ [op]\<rparr>"

definition showPage :: "canvas \<Rightarrow> canvas" where
  "showPage pdf = pdf\<lparr>cv_pages := cv_pages pdf @ [cv_code pdf], cv_code := []\<rparr>"

definition save :: "canvas \<Rightarrow> canvas" where
  "save pdf = (if cv_code pdf \<noteq> [] then showPage pdf else pdf)"

record contract_window =
  w_client :: pydict
  w_company_name :: string
  w_logo_path :: string
  w_accent_color :: string
  w_strokes :: "(int \<times> int) list list"

text \<open>The segments of one stroke: \<open>for i in range(len(stroke) - 1)\<close>.\<close>

definition stroke_lines :: "rat \<Rightarrow> (int \<times> int) list \<Rightarrow> pdf_op list" where
  "stroke_lines y stroke =
     map (\<lambda>i. let p1 = stroke ! i; p2 = stroke ! (i + 1)
              in Line (50 + of_int (fst p1)) (y + of_int (snd p1))
                      (50 + of_int (fst p2)) (y + of_int (snd p2)))
         [0..<length stroke - 1]"

definition export_pdf :: "contract_window \<Rightarrow> string \<Rightarrow> canvas option \<times> notice list" where
  "export_pdf self file_path =
     (if file_path = [] then (None, [])
      else
        let pdf = Canvas file_path A4;
            (width, height) = A4;
            y = height - 60;
            pdf = emit (SetFont ''Helvetica-Bold'' 14) pdf;
            pdf = emit (SetFillColorRGB (12 / 100) (16 / 100) (22 / 100)) pdf;
            pdf = emit (DrawString 50 y ''Vertrag'') pdf;
            y = y - 20;
            pdf = emit (SetFont ''Helvetica'' 10) pdf;
            pdf = emit (DrawString 50 y
                    (''Kundennummer: '' @ dict_get_or (w_client self) ''kundennummer'' [])) pdf;
            y = y - 16;
            pdf = emit (DrawString 50 y (''Name: '' @ dict_get_or (w_client self) ''name'' [])) pdf;
            y = y - 16;
            pdf = emit (DrawString 50 y
                    (''Adresse: '' @ dict_get_or (w_client self) ''strasse'' [] @ '', '' @
                     dict_get_or (w_client self) ''plz'' [] @ '' '' @
                     dict_get_or (w_client self) ''ort'' [])) pdf;
            y = y - 16;
            pdf = emit (DrawString 50 y
                    (''Geburtsdatum: '' @ dict_get_or (w_client self) ''geburtsdatum'' [])) pdf;
            y = y - 16;
            pdf = emit (DrawString 50 y
                    (''Pflegegrad: '' @ dict_get_or (w_client self) ''pg'' [])) pdf;
            y = y - 16;
            pdf = emit (DrawString 50 y
                    (''Versicherungs-Nr.: '' @
                     dict_get_or (w_client self) ''versicherungsnummer'' [])) pdf;
            y = y - 16;
            pdf = emit (DrawString 50 y
                    (''Pflegekasse: '' @ dict_get_or (w_client self) ''pflegekasse'' [])) pdf;
            y = y - 30;
            pdf = emit (DrawString 50 y
                    (''Mit der Unterzeichnung best'' @ [CHR 0xC3, CHR 0xA4] @
                     ''tigen beide Parteien den Vertrag.'')) pdf;
            y = y - 40;
            pdf = emit (SetFont ''Helvetica-Bold'' 12) pdf;
            pdf = emit (DrawString 50 y ''Signatur'') pdf;
            y = y - 10;
            pdf = emit (SetLineWidth 2) pdf;
            pdf = fold (\<lambda>stroke pdf. fold emit (stroke_lines y stroke) pdf) (w_strokes self) pdf;
            pdf = showPage pdf;
            pdf = save pdf
        in (Some pdf, [ShowInfo ''Erfolg'' (''PDF gespeichert: '' @ file_path)]))"

text \<open>Reading a page back: the strings drawn, with their positions, and the segments.\<close>

fun drawn_strings :: "pdf_op list \<Rightarrow> (rat \<times> rat \<times> string) list" where
  "drawn_strings [] = []"
| "drawn_strings (DrawString x y t # ops) = (x, y, t) # drawn_strings ops"
| "drawn_strings (_ # ops) = drawn_strings ops"

fun drawn_lines :: "pdf_op list \<Rightarrow> pdf_op list" where
  "drawn_lines [] = []"
| "drawn_lines (Line x1 y1 x2 y2 # ops) = Line x1 y1 x2 y2 # drawn_lines ops"
| "drawn_lines (_ # ops) = drawn_lines ops"

section \<open>Notions for stating the properties\<close>

text \<open>The identifier \<open>save_client\<close> uses, the row it inserts, and that row as
  \<open>list_clients\<close> returns it.\<close>

definition chosen_kundennummer :: "db \<Rightarrow> pydict \<Rightarrow> string" where
  "chosen_kundennummer st data =
     (case dict_get data ''kundennummer'' of
        None \<Rightarrow> next_kundennummer st
      | Some v \<Rightarrow> if v = [] then next_kundennummer st else v)"

definition inserted_row :: "db \<Rightarrow> pydict \<Rightarrow> pydict \<Rightarrow> client_row" where
  "inserted_row st data extra_fields =
     \<lparr>c_id = next_rowid (clients_seq st) (map c_id (clients_table st)),
      c_kundennummer = chosen_kundennummer st data,
      c_ma = dict_get data ''ma'',
      c_name = dict_get data ''name'',
      c_strasse = dict_get data ''strasse'',
      c_plz = dict_get data ''plz'',
      c_ort = dict_get data ''ort'',
      c_geburtsdatum = dict_get data ''geburtsdatum'',
      c_pg = dict_get data ''pg'',
      c_versicherungsnummer = dict_get data ''versicherungsnummer'',
      c_pflegekasse = dict_get data ''pflegekasse'',
      c_telefon = dict_get data ''telefon'',
      c_preise = dict_get data ''preise'',
      c_fahrtkosten = dict_get data ''fahrtkosten'',
      c_bemerkungen = dict_get data ''bemerkungen'',
      c_extra_fields = Some (json_dumps extra_fields)\<rparr>"

definition saved_client :: "db \<Rightarrow> pydict \<Rightarrow> pydict \<Rightarrow> pydict" where
  "saved_client st data extra_fields =
     dict_update (fixed_client (inserted_row st data extra_fields)) extra_fields"

text \<open>
  The identifier rule in the words of the specification: one more than the highest
  numeric suffix among the identifiers stored (0 when there is none), as \<open>K-\<close> and five
  digits. The numeric suffix of an identifier is the number written by its trailing
  decimal digits.
\<close>

definition is_digit :: "char \<Rightarrow> bool" where
  "is_digit c \<longleftrightarrow> 48 \<le> (of_char c :: nat) \<and> (of_char c :: nat) \<le> 57"

definition undecimal :: "string \<Rightarrow> nat" where
  "undecimal s = foldl (\<lambda>acc c. 10 * acc + ((of_char c :: nat) - 48)) 0 s"

definition numeric_suffix :: "string \<Rightarrow> nat" where
  "numeric_suffix ident = undecimal (rev (takeWhile is_digit (rev ident)))"

definition spec_next_identifier :: "db \<Rightarrow> string" where
  "spec_next_identifier st =
     ''K-'' @ zfill 5 (decimal
       (fold max (map (numeric_suffix \<circ> c_kundennummer) (clients_table st)) 0 + 1))"

text \<open>A store that holds exactly the rows of \<open>n\<close> saves with generated identifiers
  into the empty store: row ids \<open>1\<close> to \<open>n\<close>, identifiers \<open>K-00001\<close> onwards.\<close>

definition auto_filled :: "nat \<Rightarrow> db \<Rightarrow> bool" where
  "auto_filled n st \<longleftrightarrow>
     map c_id (clients_table st) = map int [1..<Suc n] \<and>
     map c_kundennummer (clients_table st) = map (\<lambda>i. ''K-'' @ format_05d (int i)) [1..<Suc n] \<and>
     clients_seq st = int n"

section \<open>Example inputs\<close>

definition example_data :: pydict where
  "example_data = [(''name'', ''Anna''), (''ort'', ''Kiel'')]"

definition example_extra :: pydict where
  "example_extra = [(''Hobby'', ''Schach'')]"

definition example_store :: db where
  "example_store = snd (save_client init_db example_data example_extra)"

definition example_store2 :: db where
  "example_store2 = snd (save_client example_store [(''name'', ''Bernd'')] [])"

definition example_store3 :: db where
  "example_store3 = snd (save_client example_store2 [(''name'', ''Clara'')] [])"

definition example_window :: contract_window where
  "example_window =
     \<lparr>w_client = saved_client init_db example_data example_extra,
      w_company_name = ''Pflege GmbH'',
      w_logo_path = ''logo.png'',
      w_accent_color = ''#1f2937'',
      w_strokes = [[(0, 0), (10, 5), (20, 0)], [(3, 3)]]\<rparr>"

section \<open>Properties of the credential store\<close>

lemma length_hex: "length (hex bs) = 2 * length bs"
  by (induction bs) (simp_all add: hex_def byte_hex_def)

lemma find_fresh_append:
  "username \<notin> set (map u_username rows) \<Longrightarrow>
     find (\<lambda>r. u_username r = username) (rows @ [row]) =
       (if u_username row = username then Some row else None)"
  by (induction rows) auto

lemma sql_max_None: "sql_max xs = None \<longleftrightarrow> xs = []"
  by (cases xs) (auto split: option.splits)

lemma sql_max_ge: "sql_max xs = Some m \<Longrightarrow> x \<in> set xs \<Longrightarrow> x \<le> m"
  by (induction xs arbitrary: m) (auto simp: sql_max_None split: option.splits)

lemma next_rowid_gt: "x \<in> set ids \<Longrightarrow> x < next_rowid seq ids"
  by (cases "sql_max ids") (auto simp: next_rowid_def sql_max_None dest: sql_max_ge)

lemma next_rowid_fresh: "next_rowid seq ids \<notin> set ids"
  using next_rowid_gt by blast

text \<open>
  C5. \<open>create_user\<close> returns \<open>False\<close>, raises nothing and leaves the store as it is when
  the username is already in the user table. For a new username it returns \<open>True\<close> and
  adds exactly one row, under a row id not yet in the table: the username, the salt (the
  hexadecimal text of the 16 bytes drawn, 32 characters) and the hexadecimal text of
  PBKDF2-HMAC-SHA256 of the password with that salt and 120000 iterations.
\<close>

theorem create_user_result:
  "(username \<in> set (map u_username (users_table st)) \<longrightarrow>
      create_user pbkdf2_hmac entropy st username password = (False, st)) \<and>
   (username \<notin> set (map u_username (users_table st)) \<longrightarrow>
      (\<exists>row. create_user pbkdf2_hmac entropy st username password =
               (True, st\<lparr>users_table := users_table st @ [row], users_seq := u_id row\<rparr>) \<and>
             u_id row \<notin> set (map u_id (users_table st)) \<and>
             u_username row = username \<and>
             u_salt row = hex (take 16 entropy) \<and>
             (16 \<le> length entropy \<longrightarrow> length (u_salt row) = 32) \<and>
             u_password_hash row = hex (pbkdf2_hmac ''sha256'' password (u_salt row) 120000)))"
proof (intro conjI impI)
  assume "username \<in> set (map u_username (users_table st))"
  then show "create_user pbkdf2_hmac entropy st username password = (False, st)"
    by (simp add: create_user_def Let_def)
next
  let ?row = "\<lparr>u_id = next_rowid (users_seq st) (map u_id (users_table st)),
                u_username = username,
                u_password_hash = hash_password pbkdf2_hmac password (token_hex 16 entropy),
                u_salt = token_hex 16 entropy\<rparr>"
  assume "username \<notin> set (map u_username (users_table st))"
  then have "create_user pbkdf2_hmac entropy st username password =
               (True, st\<lparr>users_table := users_table st @ [?row], users_seq := u_id ?row\<rparr>)"
    by (simp add: create_user_def Let_def)
  moreover have "u_id ?row \<notin> set (map u_id (users_table st))"
    using next_rowid_fresh [of "users_seq st" "map u_id (users_table st)"] by simp
  moreover have "16 \<le> length entropy \<longrightarrow> length (u_salt ?row) = 32"
    by (simp add: token_hex_def length_hex)
  moreover have "u_password_hash ?row = hex (pbkdf2_hmac ''sha256'' password (u_salt ?row) 120000)"
    by (simp add: hash_password_def)
  moreover have "u_username ?row = username" "u_salt ?row = hex (take 16 entropy)"
    by (simp_all add: token_hex_def)
  ultimately show "\<exists>row. create_user pbkdf2_hmac entropy st username password =
               (True, st\<lparr>users_table := users_table st @ [row], users_seq := u_id row\<rparr>) \<and>
             u_id row \<notin> set (map u_id (users_table st)) \<and>
             u_username row = username \<and>
             u_salt row = hex (take 16 entropy) \<and>
             (16 \<le> length entropy \<longrightarrow> length (u_salt row) = 32) \<and>
             u_password_hash row = hex (pbkdf2_hmac ''sha256'' password (u_salt row) 120000)"
    by blast
qed

theorem create_user_result_witness:
  "''alice'' \<notin> set (map u_username (users_table init_db)) \<and>
   fst (create_user (\<lambda>h p s n. p @ s) (replicate 16 CHR 0x5A) init_db ''alice'' ''pw1'') \<and>
   ''alice'' \<in> set (map u_username (users_table
      (snd (create_user (\<lambda>h p s n. p @ s) (replicate 16 CHR 0x5A) init_db ''alice'' ''pw1'')))) \<and>
   create_user (\<lambda>h p s n. p @ s) (replicate 16 CHR 0x5A)
      (snd (create_user (\<lambda>h p s n. p @ s) (replicate 16 CHR 0x5A) init_db ''alice'' ''pw1''))
      ''alice'' ''other'' =
     (False, snd (create_user (\<lambda>h p s n. p @ s) (replicate 16 CHR 0x5A) init_db ''alice'' ''pw1''))"
proof -
  let ?H = "\<lambda>(h::string) (p::string) (s::string) (n::nat). p @ s"
  let ?e = "replicate 16 (CHR 0x5A)"
  have fresh: "''alice'' \<notin> set (map u_username (users_table init_db))"
    by (simp add: init_db_def)
  from create_user_result [of "''alice''" init_db ?H ?e "''pw1''"] fresh
  obtain row where row:
    "create_user ?H ?e init_db ''alice'' ''pw1'' =
       (True, init_db\<lparr>users_table := users_table init_db @ [row], users_seq := u_id row\<rparr>)"
    "u_username row = ''alice''"
    by blast
  let ?st = "snd (create_user ?H ?e init_db ''alice'' ''pw1'')"
  have taken: "''alice'' \<in> set (map u_username (users_table ?st))"
    by (simp add: row)
  from create_user_result [of "''alice''" ?st ?H ?e "''other''"] taken
  have "create_user ?H ?e ?st ''alice'' ''other'' = (False, ?st)"
    by blast
  with fresh taken row show ?thesis by simp
qed

text \<open>
  C4. \<open>validate_user\<close> is false for a username that is not stored; for a stored username
  it is true exactly when the stored hash equals the hexadecimal text of
  PBKDF2-HMAC-SHA256 (120000 iterations) of the supplied password with the stored salt.
  After a successful \<open>create_user\<close> for \<open>username\<close> and \<open>password\<close>, the same pair is
  accepted and every password whose derived hash differs is rejected.
\<close>

theorem validate_user_correct:
  "(username \<notin> set (map u_username (users_table st)) \<longrightarrow>
      \<not> validate_user pbkdf2_hmac st username password) \<and>
   (\<forall>row. find (\<lambda>r. u_username r = username) (users_table st) = Some row \<longrightarrow>
      validate_user pbkdf2_hmac st username password =
        (u_password_hash row = hex (pbkdf2_hmac ''sha256'' password (u_salt row) 120000))) \<and>
   (\<forall>st'. create_user pbkdf2_hmac entropy st username password = (True, st') \<longrightarrow>
      validate_user pbkdf2_hmac st' username password \<and>
      (\<forall>p'. hash_password pbkdf2_hmac p' (token_hex 16 entropy) \<noteq>
              hash_password pbkdf2_hmac password (token_hex 16 entropy) \<longrightarrow>
            \<not> validate_user pbkdf2_hmac st' username p'))"
proof (intro conjI allI impI)
  assume "username \<notin> set (map u_username (users_table st))"
  then have "find (\<lambda>r. u_username r = username) (users_table st) = None"
    by (auto simp: find_None_iff)
  then show "\<not> validate_user pbkdf2_hmac st username password"
    by (simp add: validate_user_def)
next
  fix row
  assume "find (\<lambda>r. u_username r = username) (users_table st) = Some row"
  then show "validate_user pbkdf2_hmac st username password =
        (u_password_hash row = hex (pbkdf2_hmac ''sha256'' password (u_salt row) 120000))"
    by (simp add: validate_user_def hash_password_def)
next
  fix st'
  assume c: "create_user pbkdf2_hmac entropy st username password = (True, st')"
  then have fresh: "username \<notin> set (map u_username (users_table st))"
    by (auto simp: create_user_def Let_def split: if_splits)
  from c fresh have st': "find (\<lambda>r. u_username r = username) (users_table st') =
      Some \<lparr>u_id = next_rowid (users_seq st) (map u_id (users_table st)), u_username = username,
            u_password_hash = hash_password pbkdf2_hmac password (token_hex 16 entropy),
            u_salt = token_hex 16 entropy\<rparr>"
    by (auto simp: create_user_def Let_def find_fresh_append)
  show "validate_user pbkdf2_hmac st' username password"
    by (simp add: validate_user_def st')
  fix p'
  assume "hash_password pbkdf2_hmac p' (token_hex 16 entropy) \<noteq>
          hash_password pbkdf2_hmac password (token_hex 16 entropy)"
  then show "\<not> validate_user pbkdf2_hmac st' username p'"
    by (auto simp: validate_user_def st')
qed

theorem validate_user_correct_witness:
  "create_user (\<lambda>h p s n. p @ s) (replicate 16 CHR 0x5A) init_db ''alice'' ''pw1'' =
     (True, snd (create_user (\<lambda>h p s n. p @ s) (replicate 16 CHR 0x5A) init_db ''alice'' ''pw1'')) \<and>
   hash_password (\<lambda>h p s n. p @ s) ''wrong'' (token_hex 16 (replicate 16 CHR 0x5A)) \<noteq>
     hash_password (\<lambda>h p s n. p @ s) ''pw1'' (token_hex 16 (replicate 16 CHR 0x5A)) \<and>
   validate_user (\<lambda>h p s n. p @ s)
     (snd (create_user (\<lambda>h p s n. p @ s) (replicate 16 CHR 0x5A) init_db ''alice'' ''pw1''))
     ''alice'' ''pw1'' \<and>
   \<not> validate_user (\<lambda>h p s n. p @ s)
     (snd (create_user (\<lambda>h p s n. p @ s) (replicate 16 CHR 0x5A) init_db ''alice'' ''pw1''))
     ''alice'' ''wrong'' \<and>
   ''bob'' \<notin> set (map u_username (users_table init_db)) \<and>
   \<not> validate_user (\<lambda>h p s n. p @ s) init_db ''bob'' ''pw1''"
proof -
  let ?H = "\<lambda>(h::string) (p::string) (s::string) (n::nat). p @ s"
  let ?e = "replicate 16 (CHR 0x5A)"
  let ?st = "snd (create_user ?H ?e init_db ''alice'' ''pw1'')"
  have ok: "create_user ?H ?e init_db ''alice'' ''pw1'' = (True, ?st)"
    by (simp add: create_user_def init_db_def Let_def)
  have differ: "hash_password ?H ''wrong'' (token_hex 16 ?e) \<noteq> hash_password ?H ''pw1'' (token_hex 16 ?e)"
    by (simp add: hash_password_def hex_def byte_hex_def hexdigit_def)
  have nobody: "''bob'' \<notin> set (map u_username (users_table init_db))"
    by (simp add: init_db_def)
  note vu = validate_user_correct [of "''alice''" init_db ?H "''pw1''" ?e]
  from vu ok have a: "validate_user ?H ?st ''alice'' ''pw1''" by blast
  from vu ok differ have b: "\<not> validate_user ?H ?st ''alice'' ''wrong''" by blast
  from validate_user_correct [of "''bob''" init_db ?H "''pw1''" ?e] nobody
  have c: "\<not> validate_user ?H init_db ''bob'' ''pw1''" by blast
  from ok differ a b nobody c show ?thesis by blast
qed


section \<open>Properties of the JSON text\<close>

lemma hexval_hexdigit: "d < 16 \<Longrightarrow> hexval (hexdigit d) = Some d"
proof -
  assume "d < 16"
  then have "d = 0 \<or> d = 1 \<or> d = 2 \<or> d = 3 \<or> d = 4 \<or> d = 5 \<or> d = 6 \<or> d = 7
    \<or> d = 8 \<or> d = 9 \<or> d = 10 \<or> d = 11 \<or> d = 12 \<or> d = 13 \<or> d = 14 \<or> d = 15"
    by arith
  then show ?thesis
    by (elim disjE) (simp_all add: hexdigit_def hexval_def)
qed

lemma decode_control:
  assumes "n < 0x20"
  shows "decode_uXXXX [CHR ''0'', CHR ''0'', hexdigit (n div 16), hexdigit (n mod 16)] = Some n"
proof -
  have a: "hexval (hexdigit (n div 16)) = Some (n div 16)"
    using assms by (intro hexval_hexdigit) simp
  have b: "hexval (hexdigit (n mod 16)) = Some (n mod 16)"
    by (intro hexval_hexdigit) simp
  have z: "hexval CHR ''0'' = Some 0" by (simp add: hexval_def)
  show ?thesis by (simp add: decode_uXXXX_def a b z)
qed

lemma scanstring_escape_char:
  "scanstring (escape_char c @ t) =
     (case scanstring t of None \<Rightarrow> None | Some (s, r) \<Rightarrow> Some (c # s, r))"
proof (cases "(of_char c :: nat) < 0x20 \<and> c \<notin> {CHR 0x08, CHR 0x0C, CHR 0x0A, CHR 0x0D, CHR 0x09}")
  case True
  then have lt: "(of_char c :: nat) < 0x20" by simp
  have ne: "c \<noteq> BSLASH" "c \<noteq> DQUOTE" using lt by auto
  have esc: "escape_char c = [BSLASH, CHR ''u'', CHR ''0'', CHR ''0'',
              hexdigit ((of_char c :: nat) div 16), hexdigit ((of_char c :: nat) mod 16)]"
    using True ne by (simp add: escape_char_def)
  have enc: "utf8_encode (of_char c) = Some [c]"
    using lt by (simp add: utf8_encode_def)
  show ?thesis
    by (simp add: esc decode_control [OF lt] enc split: option.splits)
next
  case False
  then show ?thesis
    by (auto simp: escape_char_def unescape_def split: option.splits)
qed

lemma scanstring_escaped:
  "scanstring (concat (map escape_char s) @ DQUOTE # t) = Some (s, t)"
  by (induction s) (simp_all add: scanstring_escape_char)

lemma update_fresh: "k \<notin> fst ` set al \<Longrightarrow> AList.update k v al = al @ [(k, v)]"
  by (induction al) auto

lemma dict_update_distinct:
  "distinct (map fst (acc @ kvs)) \<Longrightarrow> dict_update acc kvs = acc @ kvs"
proof (induction kvs arbitrary: acc)
  case Nil
  then show ?case by (simp add: dict_update_def)
next
  case (Cons kv kvs)
  obtain k v where kv: "kv = (k, v)" by (cases kv)
  have fresh: "k \<notin> fst ` set acc" using Cons.prems kv by auto
  have "distinct (map fst ((acc @ [(k, v)]) @ kvs))" using Cons.prems kv by simp
  from Cons.IH [OF this] show ?case
    by (simp add: kv update_fresh [OF fresh] dict_update_def)
qed

lemma parse_members_last:
  "parse_members (encode_basestring k @ '': '' @ encode_basestring v @ CHR ''}'' # t) = Some ([(k, v)], t)"
  by (simp add: encode_basestring_def scanstring_escaped skip_ws_def)

lemma parse_members_more:
  "parse_members (encode_basestring k @ '': '' @ encode_basestring v @ '', '' @ u) =
     (case parse_members (skip_ws u) of
        None \<Rightarrow> None
      | Some (kvs, rest) \<Rightarrow> Some ((k, v) # kvs, rest))"
  by (simp add: encode_basestring_def scanstring_escaped skip_ws_def)

lemma dump_items_quote: "\<exists>u. dump_items (kv # kvs) = DQUOTE # u"
  by (cases kv; cases kvs) (auto simp: encode_basestring_def)

lemma parse_members_dump:
  "parse_members (dump_items (kv # kvs) @ CHR ''}'' # t) = Some (kv # kvs, t)"
proof (induction kvs arbitrary: kv)
  case Nil
  show ?case using parse_members_last [of "fst kv" "snd kv" t] by (cases kv) simp
next
  case (Cons kv' kvs)
  obtain k v where kv: "kv = (k, v)" by (cases kv)
  obtain u where u: "dump_items (kv' # kvs) = DQUOTE # u"
    using dump_items_quote by blast
  have sk: "skip_ws (dump_items (kv' # kvs) @ CHR ''}'' # t) = dump_items (kv' # kvs) @ CHR ''}'' # t"
    by (simp add: u skip_ws_def)
  have "dump_items (kv # kv' # kvs) @ CHR ''}'' # t =
        encode_basestring k @ '': '' @ encode_basestring v @ '', '' @ (dump_items (kv' # kvs) @ CHR ''}'' # t)"
    by (simp add: kv)
  then show ?case
    by (simp only: parse_members_more sk Cons.IH kv option.case prod.case)
qed

lemma json_loads_dumps: "json_loads (json_dumps d) = Inr (dict_update [] d)"
proof (cases d)
  case Nil
  then show ?thesis by (simp add: json_loads_def json_dumps_def skip_ws_def dict_update_def)
next
  case (Cons kv kvs)
  obtain u where u: "dump_items (kv # kvs) = DQUOTE # u"
    using dump_items_quote by blast
  have pm: "parse_members (DQUOTE # u @ ''}'') = Some (kv # kvs, [])"
    using parse_members_dump [of kv kvs "[]"] by (simp add: u)
  show ?thesis
    unfolding json_loads_def json_dumps_def Cons
    by (simp add: u skip_ws_def pm del: parse_members.simps)
qed

lemma json_roundtrip: "distinct (map fst d) \<Longrightarrow> json_loads (json_dumps d) = Inr d"
  using dict_update_distinct [of "[]" d] by (simp add: json_loads_dumps)

lemma json_dumps_nonempty: "json_dumps d \<noteq> []"
  by (simp add: json_dumps_def)

section \<open>Properties of the record store\<close>

subsection \<open>Dictionaries\<close>

lemma dict_get_update_other:
  "k \<notin> fst ` set e \<Longrightarrow> dict_get (dict_update d e) k = dict_get d k"
  by (induction e arbitrary: d) (auto simp: dict_update_def dict_get_def update_conv')

lemma dict_get_update_item:
  "distinct (map fst e) \<Longrightarrow> (k, v) \<in> set e \<Longrightarrow> dict_get (dict_update d e) k = Some v"
proof (induction e arbitrary: d)
  case Nil
  then show ?case by simp
next
  case (Cons kv e)
  obtain k' v' where kv: "kv = (k', v')" by (cases kv)
  show ?case
  proof (cases "(k, v) \<in> set e")
    case True
    with Cons show ?thesis by (simp add: dict_update_def)
  next
    case False
    with Cons.prems kv have eq: "k' = k" "v' = v" and notin: "k \<notin> fst ` set e" by auto
    have "dict_get (dict_update (AList.update k v d) e) k = dict_get (AList.update k v d) k"
      by (rule dict_get_update_other [OF notin])
    then show ?thesis by (simp add: dict_update_def kv eq dict_get_def update_conv')
  qed
qed

lemma dict_keys_update: "set (dict_keys d) \<subseteq> set (dict_keys (dict_update d e))"
proof (induction e arbitrary: d)
  case Nil
  then show ?case by (simp add: dict_update_def)
next
  case (Cons kv e)
  obtain k v where kv: "kv = (k, v)" by (cases kv)
  have "set (dict_keys d) \<subseteq> set (dict_keys (AList.update k v d))"
    by (auto simp: dict_keys_def dom_update)
  also have "\<dots> \<subseteq> set (dict_keys (dict_update (AList.update k v d) e))"
    by (rule Cons.IH)
  finally show ?case by (simp add: dict_update_def kv)
qed

subsection \<open>Listing\<close>

lemma insort_key_last:
  "\<forall>y\<in>set xs. f y \<le> f x \<Longrightarrow> f a \<le> f x \<Longrightarrow> insort_key f a (xs @ [x]) = insort_key f a xs @ [x]"
  by (induction xs) auto

lemma sort_key_snoc:
  "\<forall>y\<in>set xs. f y \<le> (f x :: int) \<Longrightarrow> sort_key f (xs @ [x]) = sort_key f xs @ [x]"
proof (induction xs)
  case Nil
  then show ?case by simp
next
  case (Cons a xs)
  then have "sort_key f ((a # xs) @ [x]) = insort_key f a (sort_key f xs @ [x])" by simp
  also have "\<dots> = insort_key f a (sort_key f xs) @ [x]"
    using Cons.prems by (intro insort_key_last) simp_all
  finally show ?case by simp
qed

lemma order_by_id_desc_snoc:
  "\<forall>r\<in>set rows. c_id r \<le> c_id row \<Longrightarrow>
     order_by_id_desc (rows @ [row]) = row # order_by_id_desc rows"
  by (simp add: order_by_id_desc_def sort_key_snoc)

lemma save_client_eq:
  "save_client st data extra =
     (if chosen_kundennummer st data \<in> set (map c_kundennummer (clients_table st))
      then (Some IntegrityError, st)
      else (None, st\<lparr>clients_table := clients_table st @ [inserted_row st data extra],
                    clients_seq := c_id (inserted_row st data extra)\<rparr>))"
  by (simp add: save_client_def chosen_kundennummer_def inserted_row_def Let_def)

lemma save_client_ok:
  "save_client st data extra = (None, st') \<longleftrightarrow>
     chosen_kundennummer st data \<notin> set (map c_kundennummer (clients_table st)) \<and>
     st' = st\<lparr>clients_table := clients_table st @ [inserted_row st data extra],
              clients_seq := c_id (inserted_row st data extra)\<rparr>"
  by (auto simp: save_client_eq)

lemma client_of_inserted_row:
  "distinct (map fst extra) \<Longrightarrow>
     client_of_row (inserted_row st data extra) = Inr (saved_client st data extra)"
  by (simp add: client_of_row_def saved_client_def json_roundtrip json_dumps_nonempty
      inserted_row_def Let_def)

lemma inserted_row_id_ge: "r \<in> set (clients_table st) \<Longrightarrow> c_id r \<le> c_id (inserted_row st data extra)"
  using next_rowid_gt [of "c_id r" "map c_id (clients_table st)" "clients_seq st"]
  by (simp add: inserted_row_def)

lemma list_clients_after_save:
  assumes "save_client st data extra = (None, st')"
      and "list_clients st = Inr old"
      and "distinct (map fst extra)"
  shows "list_clients st' = Inr (saved_client st data extra # old)"
proof -
  from assms(1) have st': "clients_table st' = clients_table st @ [inserted_row st data extra]"
    by (simp add: save_client_ok)
  have "order_by_id_desc (clients_table st') =
          inserted_row st data extra # order_by_id_desc (clients_table st)"
    unfolding st' by (rule order_by_id_desc_snoc) (simp add: inserted_row_id_ge)
  then show ?thesis
    using assms(2) by (simp add: list_clients_def client_of_inserted_row [OF assms(3)])
qed

lemma chosen_kundennummer_supplied:
  "dict_get data ''kundennummer'' = Some v \<Longrightarrow> v \<noteq> [] \<Longrightarrow> chosen_kundennummer st data = v"
  by (simp add: chosen_kundennummer_def)

lemma chosen_kundennummer_auto:
  "dict_get data ''kundennummer'' = None \<or> dict_get data ''kundennummer'' = Some [] \<Longrightarrow>
     chosen_kundennummer st data = next_kundennummer st"
  by (auto simp: chosen_kundennummer_def)

text \<open>
  C6. The identifier of a record is the caller's when one is supplied and not empty, and
  the next generated one otherwise. When that identifier is already stored,
  \<open>save_client\<close> raises \<open>IntegrityError\<close> and the store is unchanged. When it is new,
  exactly one row is added, under a row id not yet in the table, and the extra fields are
  in that row as JSON text, which decodes back to the extra fields.
\<close>

theorem save_client_result:
  "(\<forall>v. dict_get data ''kundennummer'' = Some v \<longrightarrow> v \<noteq> [] \<longrightarrow> chosen_kundennummer st data = v) \<and>
   (dict_get data ''kundennummer'' = None \<or> dict_get data ''kundennummer'' = Some [] \<longrightarrow>
      chosen_kundennummer st data = next_kundennummer st) \<and>
   (chosen_kundennummer st data \<in> set (map c_kundennummer (clients_table st)) \<longrightarrow>
      save_client st data extra_fields = (Some IntegrityError, st)) \<and>
   (chosen_kundennummer st data \<notin> set (map c_kundennummer (clients_table st)) \<longrightarrow>
      (\<exists>row. save_client st data extra_fields =
               (None, st\<lparr>clients_table := clients_table st @ [row], clients_seq := c_id row\<rparr>) \<and>
             c_id row \<notin> set (map c_id (clients_table st)) \<and>
             c_kundennummer row = chosen_kundennummer st data \<and>
             c_extra_fields row = Some (json_dumps extra_fields) \<and>
             (distinct (map fst extra_fields) \<longrightarrow>
                json_loads (json_dumps extra_fields) = Inr extra_fields)))"
proof (intro conjI allI impI)
  fix v
  assume "dict_get data ''kundennummer'' = Some v" "v \<noteq> []"
  then show "chosen_kundennummer st data = v" by (rule chosen_kundennummer_supplied)
next
  assume "dict_get data ''kundennummer'' = None \<or> dict_get data ''kundennummer'' = Some []"
  then show "chosen_kundennummer st data = next_kundennummer st" by (rule chosen_kundennummer_auto)
next
  assume "chosen_kundennummer st data \<in> set (map c_kundennummer (clients_table st))"
  then show "save_client st data extra_fields = (Some IntegrityError, st)"
    by (simp add: save_client_eq)
next
  let ?row = "inserted_row st data extra_fields"
  assume "chosen_kundennummer st data \<notin> set (map c_kundennummer (clients_table st))"
  then have "save_client st data extra_fields =
               (None, st\<lparr>clients_table := clients_table st @ [?row], clients_seq := c_id ?row\<rparr>)"
    by (simp add: save_client_eq)
  moreover have "c_id ?row \<notin> set (map c_id (clients_table st))"
    using next_rowid_fresh [of "clients_seq st" "map c_id (clients_table st)"]
    by (simp add: inserted_row_def)
  moreover have "c_kundennummer ?row = chosen_kundennummer st data"
    "c_extra_fields ?row = Some (json_dumps extra_fields)"
    by (simp_all add: inserted_row_def)
  moreover have "distinct (map fst extra_fields) \<longrightarrow>
                json_loads (json_dumps extra_fields) = Inr extra_fields"
    by (simp add: json_roundtrip)
  ultimately show "\<exists>row. save_client st data extra_fields =
               (None, st\<lparr>clients_table := clients_table st @ [row], clients_seq := c_id row\<rparr>) \<and>
             c_id row \<notin> set (map c_id (clients_table st)) \<and>
             c_kundennummer row = chosen_kundennummer st data \<and>
             c_extra_fields row = Some (json_dumps extra_fields) \<and>
             (distinct (map fst extra_fields) \<longrightarrow>
                json_loads (json_dumps extra_fields) = Inr extra_fields)"
    by blast
qed

lemma dict_keys_fixed_client: "dict_keys (fixed_client row) = fixed_fields"
  by (simp add: fixed_client_def fixed_fields_def dict_keys_def)

lemma dict_get_inserted_fixed:
  "f \<in> set fixed_fields \<Longrightarrow> f \<noteq> ''kundennummer'' \<Longrightarrow>
     dict_get (fixed_client (inserted_row st data extra)) f = Some (dict_get_or data f [])"
  by (auto simp: fixed_fields_def fixed_client_def inserted_row_def dict_get_or_def
      or_empty_def dict_get_def split: option.splits)

lemma dict_get_inserted_kundennummer:
  "dict_get (fixed_client (inserted_row st data extra)) ''kundennummer'' =
     Some (chosen_kundennummer st data)"
  by (simp add: fixed_client_def inserted_row_def dict_get_def)

text \<open>
  C2. Save and list round trip: after a successful \<open>save_client\<close> of a record whose
  extra-field names are none of the fixed-field names, \<open>list_clients\<close> returns the
  record first. Each fixed field has the value saved (the empty string for a field the
  caller left out, the identifier used for \<open>kundennummer\<close>, which is the caller's when
  supplied), and each extra-field name maps to its saved value.
\<close>

theorem save_list_roundtrip:
  assumes "save_client st data extra_fields = (None, st')"
      and "list_clients st = Inr old"
      and "distinct (map fst extra_fields)"
      and "set (map fst extra_fields) \<inter> set fixed_fields = {}"
  shows "\<exists>client. list_clients st' = Inr (client # old) \<and>
           dict_get client ''kundennummer'' = Some (chosen_kundennummer st data) \<and>
           (\<forall>v. dict_get data ''kundennummer'' = Some v \<longrightarrow> v \<noteq> [] \<longrightarrow>
                dict_get client ''kundennummer'' = Some v) \<and>
           (\<forall>f\<in>set fixed_fields. f \<noteq> ''kundennummer'' \<longrightarrow>
                dict_get client f = Some (dict_get_or data f [])) \<and>
           (\<forall>(k, v)\<in>set extra_fields. dict_get client k = Some v)"
proof -
  let ?client = "saved_client st data extra_fields"
  have listed: "list_clients st' = Inr (?client # old)"
    using assms(1-3) by (rule list_clients_after_save)
  have fixed: "dict_get ?client f = dict_get (fixed_client (inserted_row st data extra_fields)) f"
    if "f \<in> set fixed_fields" for f
    unfolding saved_client_def using that assms(4)
    by (intro dict_get_update_other) auto
  have kn: "dict_get ?client ''kundennummer'' = Some (chosen_kundennummer st data)"
    using fixed [of "''kundennummer''"]
    by (simp add: dict_get_inserted_kundennummer fixed_fields_def)
  have others: "\<forall>f\<in>set fixed_fields. f \<noteq> ''kundennummer'' \<longrightarrow>
                dict_get ?client f = Some (dict_get_or data f [])"
    using fixed by (simp add: dict_get_inserted_fixed)
  have extras: "\<forall>(k, v)\<in>set extra_fields. dict_get ?client k = Some v"
    unfolding saved_client_def using assms(3) by (auto intro: dict_get_update_item)
  have supplied: "\<forall>v. dict_get data ''kundennummer'' = Some v \<longrightarrow> v \<noteq> [] \<longrightarrow>
                dict_get ?client ''kundennummer'' = Some v"
    using kn by (simp add: chosen_kundennummer_supplied)
  from listed kn supplied others extras show ?thesis by blast
qed

text \<open>
  C7. \<open>list_clients\<close> returns the records most recently saved first: after saving three
  records in the order 1, 2, 3 into any store, the listing is record 3, record 2,
  record 1, and then the earlier listing.
\<close>

theorem list_clients_reverse_insertion:
  assumes "save_client st data1 extra1 = (None, st1)"
      and "save_client st1 data2 extra2 = (None, st2)"
      and "save_client st2 data3 extra3 = (None, st3)"
      and "list_clients st = Inr old"
      and "distinct (map fst extra1)" and "distinct (map fst extra2)" and "distinct (map fst extra3)"
  shows "list_clients st3 =
           Inr (saved_client st2 data3 extra3 # saved_client st1 data2 extra2 #
                saved_client st data1 extra1 # old)"
proof -
  have l1: "list_clients st1 = Inr (saved_client st data1 extra1 # old)"
    using assms(1,4,5) by (rule list_clients_after_save)
  have l2: "list_clients st2 =
              Inr (saved_client st1 data2 extra2 # saved_client st data1 extra1 # old)"
    using assms(2) l1 assms(6) by (rule list_clients_after_save)
  show ?thesis
    using assms(3) l2 assms(7) by (rule list_clients_after_save)
qed

lemma clients_of_rows_shape:
  "clients_of_rows rows = Inr cs \<Longrightarrow>
     list_all2 (\<lambda>row client. \<exists>extra. client = dict_update (fixed_client row) extra) rows cs"
proof (induction rows arbitrary: cs)
  case Nil
  then show ?case by simp
next
  case (Cons row rows)
  then show ?case
    by (auto simp: client_of_row_def Let_def split: sum.splits)
qed

lemma fixed_key_present:
  assumes "f \<in> set fixed_fields"
  shows "\<exists>v. dict_get (dict_update (fixed_client row) extra) f = Some v"
proof -
  have "f \<in> set (dict_keys (dict_update (fixed_client row) extra))"
    using dict_keys_update [of "fixed_client row" extra] assms
    by (auto simp: dict_keys_fixed_client)
  then show ?thesis
    by (cases "map_of (dict_update (fixed_client row) extra) f")
       (auto simp: dict_get_def dict_keys_def map_of_eq_None_iff)
qed

text \<open>
  C10. Every record \<open>list_clients\<close> returns has all fourteen fixed-field names as keys.
  It is the dictionary of the fixed fields of its row, with the extra fields merged over
  it; in that dictionary the keys are the fourteen names in order, the identifier is the
  stored one, and a column that is \<open>NULL\<close> reads as the empty string.
\<close>

theorem list_clients_fixed_fields:
  assumes "list_clients st = Inr clients"
  shows "length clients = length (clients_table st) \<and>
         (\<forall>client\<in>set clients. \<forall>f\<in>set fixed_fields. \<exists>v. dict_get client f = Some v) \<and>
         (\<forall>i<length clients. \<exists>extra.
            clients ! i = dict_update (fixed_client (order_by_id_desc (clients_table st) ! i)) extra) \<and>
         (\<forall>row. dict_keys (fixed_client row) = fixed_fields \<and>
            dict_get (fixed_client row) ''kundennummer'' = Some (c_kundennummer row) \<and>
            dict_get (fixed_client row) ''ma'' = Some (case c_ma row of None \<Rightarrow> [] | Some v \<Rightarrow> v) \<and>
            dict_get (fixed_client row) ''name'' = Some (case c_name row of None \<Rightarrow> [] | Some v \<Rightarrow> v) \<and>
            dict_get (fixed_client row) ''strasse'' =
              Some (case c_strasse row of None \<Rightarrow> [] | Some v \<Rightarrow> v) \<and>
            dict_get (fixed_client row) ''plz'' = Some (case c_plz row of None \<Rightarrow> [] | Some v \<Rightarrow> v) \<and>
            dict_get (fixed_client row) ''ort'' = Some (case c_ort row of None \<Rightarrow> [] | Some v \<Rightarrow> v) \<and>
            dict_get (fixed_client row) ''geburtsdatum'' =
              Some (case c_geburtsdatum row of None \<Rightarrow> [] | Some v \<Rightarrow> v) \<and>
            dict_get (fixed_client row) ''pg'' = Some (case c_pg row of None \<Rightarrow> [] | Some v \<Rightarrow> v) \<and>
            dict_get (fixed_client row) ''versicherungsnummer'' =
              Some (case c_versicherungsnummer row of None \<Rightarrow> [] | Some v \<Rightarrow> v) \<and>
            dict_get (fixed_client row) ''pflegekasse'' =
              Some (case c_pflegekasse row of None \<Rightarrow> [] | Some v \<Rightarrow> v) \<and>
            dict_get (fixed_client row) ''telefon'' =
              Some (case c_telefon row of None \<Rightarrow> [] | Some v \<Rightarrow> v) \<and>
            dict_get (fixed_client row) ''preise'' =
              Some (case c_preise row of None \<Rightarrow> [] | Some v \<Rightarrow> v) \<and>
            dict_get (fixed_client row) ''fahrtkosten'' =
              Some (case c_fahrtkosten row of None \<Rightarrow> [] | Some v \<Rightarrow> v) \<and>
            dict_get (fixed_client row) ''bemerkungen'' =
              Some (case c_bemerkungen row of None \<Rightarrow> [] | Some v \<Rightarrow> v))"
proof -
  let ?rows = "order_by_id_desc (clients_table st)"
  have shape: "list_all2 (\<lambda>row client. \<exists>extra. client = dict_update (fixed_client row) extra)
                 ?rows clients"
    using assms unfolding list_clients_def by (rule clients_of_rows_shape)
  have len: "length clients = length (clients_table st)"
    using list_all2_lengthD [OF shape] by (simp add: order_by_id_desc_def)
  have nth: "\<forall>i<length clients. \<exists>extra. clients ! i = dict_update (fixed_client (?rows ! i)) extra"
    using shape by (simp add: list_all2_conv_all_nth)
  have keys: "\<forall>client\<in>set clients. \<forall>f\<in>set fixed_fields. \<exists>v. dict_get client f = Some v"
  proof (intro ballI)
    fix client f
    assume "client \<in> set clients" and f: "f \<in> set fixed_fields"
    then obtain i where "i < length clients" "clients ! i = client"
      by (auto simp: in_set_conv_nth)
    with nth obtain extra where "client = dict_update (fixed_client (?rows ! i)) extra"
      by auto
    then show "\<exists>v. dict_get client f = Some v"
      using fixed_key_present [OF f] by simp
  qed
  have fixed: "dict_keys (fixed_client row) = fixed_fields \<and>
            dict_get (fixed_client row) ''kundennummer'' = Some (c_kundennummer row) \<and>
            dict_get (fixed_client row) ''ma'' = Some (case c_ma row of None \<Rightarrow> [] | Some v \<Rightarrow> v) \<and>
            dict_get (fixed_client row) ''name'' = Some (case c_name row of None \<Rightarrow> [] | Some v \<Rightarrow> v) \<and>
            dict_get (fixed_client row) ''strasse'' =
              Some (case c_strasse row of None \<Rightarrow> [] | Some v \<Rightarrow> v) \<and>
            dict_get (fixed_client row) ''plz'' = Some (case c_plz row of None \<Rightarrow> [] | Some v \<Rightarrow> v) \<and>
            dict_get (fixed_client row) ''ort'' = Some (case c_ort row of None \<Rightarrow> [] | Some v \<Rightarrow> v) \<and>
            dict_get (fixed_client row) ''geburtsdatum'' =
              Some (case c_geburtsdatum row of None \<Rightarrow> [] | Some v \<Rightarrow> v) \<and>
            dict_get (fixed_client row) ''pg'' = Some (case c_pg row of None \<Rightarrow> [] | Some v \<Rightarrow> v) \<and>
            dict_get (fixed_client row) ''versicherungsnummer'' =
              Some (case c_versicherungsnummer row of None \<Rightarrow> [] | Some v \<Rightarrow> v) \<and>
            dict_get (fixed_client row) ''pflegekasse'' =
              Some (case c_pflegekasse row of None \<Rightarrow> [] | Some v \<Rightarrow> v) \<and>
            dict_get (fixed_client row) ''telefon'' =
              Some (case c_telefon row of None \<Rightarrow> [] | Some v \<Rightarrow> v) \<and>
            dict_get (fixed_client row) ''preise'' =
              Some (case c_preise row of None \<Rightarrow> [] | Some v \<Rightarrow> v) \<and>
            dict_get (fixed_client row) ''fahrtkosten'' =
              Some (case c_fahrtkosten row of None \<Rightarrow> [] | Some v \<Rightarrow> v) \<and>
            dict_get (fixed_client row) ''bemerkungen'' =
              Some (case c_bemerkungen row of None \<Rightarrow> [] | Some v \<Rightarrow> v)" for row
    by (simp add: dict_keys_fixed_client)
       (simp add: fixed_client_def dict_get_def or_empty_def)
  from len keys nth fixed show ?thesis by blast
qed

lemma format_05d_1: "format_05d 1 = ''00001''"
  by code_simp

lemma next_kundennummer_empty: "clients_table st = [] \<Longrightarrow> next_kundennummer st = ''K-00001''"
  by (simp add: next_kundennummer_def or_zero_def format_05d_1)

lemma example_store_eq:
  "example_store =
     \<lparr>users_table = [], users_seq = 0,
      clients_table =
        [\<lparr>c_id = 1, c_kundennummer = ''K-00001'', c_ma = None, c_name = Some ''Anna'',
          c_strasse = None, c_plz = None, c_ort = Some ''Kiel'', c_geburtsdatum = None,
          c_pg = None, c_versicherungsnummer = None, c_pflegekasse = None, c_telefon = None,
          c_preise = None, c_fahrtkosten = None, c_bemerkungen = None,
          c_extra_fields = Some (json_dumps example_extra)\<rparr>],
      clients_seq = 1\<rparr>"
  by (simp add: example_store_def save_client_def init_db_def example_data_def Let_def
      dict_get_def next_kundennummer_empty next_rowid_def)

theorem save_client_result_witness:
  "chosen_kundennummer init_db example_data \<notin> set (map c_kundennummer (clients_table init_db)) \<and>
   fst (save_client init_db example_data example_extra) = None \<and>
   chosen_kundennummer example_store [(''kundennummer'', ''K-00001'')] \<in>
     set (map c_kundennummer (clients_table example_store)) \<and>
   save_client example_store [(''kundennummer'', ''K-00001'')] [] =
     (Some IntegrityError, example_store)"
proof -
  have fresh: "chosen_kundennummer init_db example_data \<notin>
                 set (map c_kundennummer (clients_table init_db))"
    by (simp add: init_db_def)
  have taken: "chosen_kundennummer example_store [(''kundennummer'', ''K-00001'')] \<in>
                 set (map c_kundennummer (clients_table example_store))"
    by (simp add: example_store_eq chosen_kundennummer_def dict_get_def)
  from save_client_result [of example_data init_db example_extra] fresh
  have a: "fst (save_client init_db example_data example_extra) = None"
    by auto
  from save_client_result [of "[(''kundennummer'', ''K-00001'')]" example_store "[]"] taken
  have b: "save_client example_store [(''kundennummer'', ''K-00001'')] [] =
             (Some IntegrityError, example_store)"
    by blast
  from fresh a taken b show ?thesis by blast
qed

lemma example_saved: "save_client init_db example_data example_extra = (None, example_store)"
  by (simp add: example_store_def save_client_eq init_db_def)

lemma list_init_db: "list_clients init_db = Inr []"
  by (simp add: list_clients_def init_db_def order_by_id_desc_def)

theorem save_list_roundtrip_witness:
  "save_client init_db example_data example_extra = (None, example_store) \<and>
   list_clients init_db = Inr [] \<and>
   distinct (map fst example_extra) \<and>
   set (map fst example_extra) \<inter> set fixed_fields = {} \<and>
   (\<exists>client. list_clients example_store = Inr [client] \<and>
      dict_get client ''kundennummer'' = Some ''K-00001'' \<and>
      dict_get client ''name'' = Some ''Anna'' \<and>
      dict_get client ''ort'' = Some ''Kiel'' \<and>
      dict_get client ''plz'' = Some [] \<and>
      dict_get client ''Hobby'' = Some ''Schach'')"
proof -
  have d: "distinct (map fst example_extra)"
    by (simp add: example_extra_def)
  have i: "set (map fst example_extra) \<inter> set fixed_fields = {}"
    by (simp add: example_extra_def fixed_fields_def)
  have kn: "chosen_kundennummer init_db example_data = ''K-00001''"
    by (simp add: chosen_kundennummer_def example_data_def dict_get_def next_kundennummer_empty
        init_db_def)
  from save_list_roundtrip [OF example_saved list_init_db d i]
  obtain client where c: "list_clients example_store = Inr [client]"
      "dict_get client ''kundennummer'' = Some (chosen_kundennummer init_db example_data)"
      "\<forall>f\<in>set fixed_fields. f \<noteq> ''kundennummer'' \<longrightarrow>
           dict_get client f = Some (dict_get_or example_data f [])"
      "\<forall>(k, v)\<in>set example_extra. dict_get client k = Some v"
    by blast
  have "dict_get client ''name'' = Some ''Anna''" "dict_get client ''ort'' = Some ''Kiel''"
       "dict_get client ''plz'' = Some []"
    using c(3) by (simp_all add: fixed_fields_def example_data_def dict_get_or_def dict_get_def)
  moreover have "dict_get client ''Hobby'' = Some ''Schach''"
    using c(4) by (simp add: example_extra_def)
  ultimately show ?thesis
    using example_saved list_init_db d i c(1,2) kn by auto
qed

lemma example_saved2: "save_client example_store [(''name'', ''Bernd'')] [] = (None, example_store2)"
proof -
  have "fst (save_client example_store [(''name'', ''Bernd'')] []) = None"
    by code_simp
  then show ?thesis
    by (simp add: example_store2_def prod_eq_iff)
qed

lemma example_saved3: "save_client example_store2 [(''name'', ''Clara'')] [] = (None, example_store3)"
proof -
  have "fst (save_client example_store2 [(''name'', ''Clara'')] []) = None"
    by code_simp
  then show ?thesis
    by (simp add: example_store3_def prod_eq_iff)
qed

theorem list_clients_reverse_insertion_witness:
  "save_client init_db example_data example_extra = (None, example_store) \<and>
   save_client example_store [(''name'', ''Bernd'')] [] = (None, example_store2) \<and>
   save_client example_store2 [(''name'', ''Clara'')] [] = (None, example_store3) \<and>
   list_clients init_db = Inr [] \<and>
   list_clients example_store3 =
     Inr [saved_client example_store2 [(''name'', ''Clara'')] [],
          saved_client example_store [(''name'', ''Bernd'')] [],
          saved_client init_db example_data example_extra] \<and>
   map (\<lambda>client. dict_get client ''name'')
     [saved_client example_store2 [(''name'', ''Clara'')] [],
      saved_client example_store [(''name'', ''Bernd'')] [],
      saved_client init_db example_data example_extra] =
     [Some ''Clara'', Some ''Bernd'', Some ''Anna'']"
proof -
  have d1: "distinct (map fst example_extra)" by (simp add: example_extra_def)
  have d0: "distinct (map fst ([] :: pydict))" by simp
  have names: "map (\<lambda>client. dict_get client ''name'')
     [saved_client example_store2 [(''name'', ''Clara'')] [],
      saved_client example_store [(''name'', ''Bernd'')] [],
      saved_client init_db example_data example_extra] =
     [Some ''Clara'', Some ''Bernd'', Some ''Anna'']"
    by (simp add: saved_client_def dict_update_def example_extra_def fixed_client_def
        inserted_row_def dict_get_def example_data_def or_empty_def)
  from list_clients_reverse_insertion
    [OF example_saved example_saved2 example_saved3 list_init_db d1 d0 d0]
    example_saved example_saved2 example_saved3 list_init_db names
  show ?thesis by simp
qed

theorem list_clients_fixed_fields_witness:
  "list_clients example_store = Inr [saved_client init_db example_data example_extra] \<and>
   length [saved_client init_db example_data example_extra] = length (clients_table example_store) \<and>
   dict_keys (fixed_client (hd (clients_table example_store))) = fixed_fields \<and>
   c_ma (hd (clients_table example_store)) = None \<and>
   dict_get (fixed_client (hd (clients_table example_store))) ''ma'' = Some [] \<and>
   (\<exists>v. dict_get (saved_client init_db example_data example_extra) ''ma'' = Some v)"
proof -
  have d1: "distinct (map fst example_extra)" by (simp add: example_extra_def)
  have listed: "list_clients example_store = Inr [saved_client init_db example_data example_extra]"
    using example_saved list_init_db d1 by (rule list_clients_after_save)
  have null: "c_ma (hd (clients_table example_store)) = None"
    by (simp add: example_store_eq)
  have ma: "''ma'' \<in> set fixed_fields"
    by (simp add: fixed_fields_def)
  from list_clients_fixed_fields [OF listed] listed null ma show ?thesis
    by simp
qed

text \<open>
  C9. With no client records the listing is empty, and then the spreadsheet export
  writes no file, leaves the store as it is and shows one information notice, whatever
  path the dialog returns; it raises nothing.
\<close>

theorem export_excel_empty:
  "(clients_table st = [] \<longrightarrow> list_clients st = Inr []) \<and>
   (list_clients st = Inr [] \<longrightarrow>
      clients_table st = [] \<and>
      export_excel st file_path =
        Inr \<lparr>x_store = st, x_written = None,
             x_notices = [ShowInfo ''Hinweis'' ''Keine Kunden zum Exportieren.'']\<rparr>)"
proof (intro conjI impI)
  assume "clients_table st = []"
  then show "list_clients st = Inr []"
    by (simp add: list_clients_def order_by_id_desc_def)
next
  assume e: "list_clients st = Inr []"
  then show "export_excel st file_path =
        Inr \<lparr>x_store = st, x_written = None,
             x_notices = [ShowInfo ''Hinweis'' ''Keine Kunden zum Exportieren.'']\<rparr>"
    by (simp add: export_excel_def)
  from e have "list_all2 (\<lambda>row client. \<exists>extra. client = dict_update (fixed_client row) extra)
                 (order_by_id_desc (clients_table st)) []"
    unfolding list_clients_def by (rule clients_of_rows_shape)
  then have "length (sort_key c_id (clients_table st)) = 0"
    by (simp add: order_by_id_desc_def)
  then have "length (clients_table st) = 0"
    by (simp del: length_0_conv)
  then show "clients_table st = []"
    by simp
qed

theorem export_excel_empty_witness:
  "clients_table init_db = [] \<and> list_clients init_db = Inr [] \<and>
   export_excel init_db ''kunden.xlsx'' =
     Inr \<lparr>x_store = init_db, x_written = None,
          x_notices = [ShowInfo ''Hinweis'' ''Keine Kunden zum Exportieren.'']\<rparr>"
proof -
  have e: "clients_table init_db = []" by (simp add: init_db_def)
  from export_excel_empty [of init_db "''kunden.xlsx''"] e show ?thesis by blast
qed

subsection \<open>Decimal numerals\<close>

lemma of_char_digit: "d < 10 \<Longrightarrow> (of_char (char_of (48 + d) :: char) :: nat) = 48 + d"
  by simp

lemma undecimal_snoc: "undecimal (s @ [c]) = 10 * undecimal s + ((of_char c :: nat) - 48)"
  by (simp add: undecimal_def)

lemma undecimal_decimal: "undecimal (decimal n) = n"
proof (induction n rule: decimal.induct)
  case (1 n)
  show ?case
  proof (cases "n < 10")
    case True
    then show ?thesis
      by (subst decimal.simps) (simp add: undecimal_def)
  next
    case False
    have "n mod 10 < 10" by simp
    then have d: "(of_char (char_of (48 + n mod 10) :: char) :: nat) = 48 + n mod 10"
      by (rule of_char_digit)
    have "decimal n = decimal (n div 10) @ [char_of (48 + n mod 10)]"
      using False by (subst decimal.simps) simp
    then show ?thesis
      using 1 [OF False] by (simp add: undecimal_snoc d)
  qed
qed

lemma is_digit_decimal: "\<forall>c\<in>set (decimal n). is_digit c"
proof (induction n rule: decimal.induct)
  case (1 n)
  show ?case
  proof (cases "n < 10")
    case True
    then show ?thesis
      by (subst decimal.simps) (simp add: is_digit_def)
  next
    case False
    have "n mod 10 < 10" by simp
    then have d: "(of_char (char_of (48 + n mod 10) :: char) :: nat) = 48 + n mod 10"
      by (rule of_char_digit)
    have "decimal n = decimal (n div 10) @ [char_of (48 + n mod 10)]"
      using False by (subst decimal.simps) simp
    then show ?thesis
      using 1 [OF False] by (simp add: is_digit_def d)
  qed
qed

lemma length_decimal: "n < 10 ^ k \<Longrightarrow> 0 < k \<Longrightarrow> length (decimal n) \<le> k"
proof (induction n arbitrary: k rule: decimal.induct)
  case (1 n)
  show ?case
  proof (cases "n < 10")
    case True
    then show ?thesis
      using 1(3) by (subst decimal.simps) simp
  next
    case False
    obtain j where k: "k = Suc j" using 1(3) by (cases k) auto
    have "0 < j" using False 1(2) k by (cases j) auto
    moreover have "n div 10 < 10 ^ j" using 1(2) k by (simp add: less_mult_imp_div_less mult.commute)
    ultimately have "length (decimal (n div 10)) \<le> j" using 1(1) [OF False] by blast
    moreover have "decimal n = decimal (n div 10) @ [char_of (48 + n mod 10)]"
      using False by (subst decimal.simps) simp
    ultimately show ?thesis by (simp add: k)
  qed
qed

lemma decimal_nonempty: "decimal n \<noteq> []"
  by (subst decimal.simps) simp

lemma undecimal_zeros: "undecimal (replicate k CHR ''0'' @ s) = undecimal s"
  by (induction k) (simp_all add: undecimal_def)

lemma undecimal_zfill: "undecimal (zfill w s) = undecimal s"
  by (simp add: zfill_def undecimal_zeros)

lemma is_digit_zfill: "\<forall>c\<in>set s. is_digit c \<Longrightarrow> \<forall>c\<in>set (zfill w s). is_digit c"
  by (auto simp: zfill_def is_digit_def)

lemma length_zfill: "length (zfill w s) = max w (length s)"
  by (simp add: zfill_def)

lemma format_05d_nonneg: "0 \<le> i \<Longrightarrow> format_05d i = zfill 5 (decimal (nat i))"
  by (simp add: format_05d_def)

lemma format_05d_int: "format_05d (int n) = zfill 5 (decimal n)"
  by (simp add: format_05d_def)

lemma undecimal_format: "undecimal (format_05d (int n)) = n"
  by (simp add: format_05d_int undecimal_zfill undecimal_decimal)

lemma format_05d_inj: "format_05d (int m) = format_05d (int n) \<Longrightarrow> m = n"
  using undecimal_format by metis

lemma takeWhile_all_append: "\<forall>x\<in>set xs. P x \<Longrightarrow> takeWhile P (xs @ ys) = xs @ takeWhile P ys"
  by (induction xs) auto

lemma numeric_suffix_generated: "numeric_suffix (''K-'' @ format_05d (int n)) = n"
proof -
  let ?ds = "format_05d (int n)"
  have digits: "\<forall>c\<in>set (rev ?ds). is_digit c"
    using is_digit_zfill [OF is_digit_decimal] by (simp add: format_05d_int)
  have "rev (''K-'' @ ?ds) = rev ?ds @ ''-K''" by simp
  then have "takeWhile is_digit (rev (''K-'' @ ?ds)) = rev ?ds @ takeWhile is_digit ''-K''"
    using takeWhile_all_append [OF digits] by simp
  also have "takeWhile is_digit ''-K'' = []" by (simp add: is_digit_def)
  finally show ?thesis
    by (simp add: numeric_suffix_def undecimal_format)
qed

subsection \<open>Generated identifiers\<close>

lemma sql_max_snoc:
  "sql_max (xs @ [x]) = Some (case sql_max xs of None \<Rightarrow> x | Some m \<Rightarrow> max m x)"
  by (induction xs) (auto split: option.splits)

lemma sql_max_upto: "sql_max (map int [1..<Suc n]) = (if n = 0 then None else Some (int n))"
proof (induction n)
  case 0
  then show ?case by simp
next
  case (Suc n)
  have "map int [1..<Suc (Suc n)] = map int [1..<Suc n] @ [int (Suc n)]" by simp
  then show ?case
    using Suc by (simp only: sql_max_snoc) (simp split: if_splits)
qed

lemma sql_max_Max: "xs \<noteq> [] \<Longrightarrow> sql_max xs = Some (Max (set xs))"
proof (induction xs)
  case Nil
  then show ?case by simp
next
  case (Cons x xs)
  then show ?case
    by (cases "xs = []") (auto simp: max.commute)
qed

lemma auto_filled_next:
  assumes "auto_filled n st"
  shows "next_kundennummer st = ''K-'' @ format_05d (int (Suc n))"
proof -
  from assms have ids: "map c_id (clients_table st) = map int [1..<Suc n]"
    unfolding auto_filled_def by blast
  have "sql_max (map c_id (clients_table st)) = (if n = 0 then None else Some (int n))"
    unfolding ids by (rule sql_max_upto)
  then have "or_zero (sql_max (map c_id (clients_table st))) + 1 = int (Suc n)"
    by (simp add: or_zero_def)
  then show ?thesis
    by (simp only: next_kundennummer_def Let_def)
qed

lemma auto_filled_fresh:
  assumes "auto_filled n st"
  shows "''K-'' @ format_05d (int (Suc n)) \<notin> set (map c_kundennummer (clients_table st))"
proof
  assume "''K-'' @ format_05d (int (Suc n)) \<in> set (map c_kundennummer (clients_table st))"
  moreover from assms
  have "map c_kundennummer (clients_table st) = map (\<lambda>i. ''K-'' @ format_05d (int i)) [1..<Suc n]"
    unfolding auto_filled_def by blast
  ultimately have "''K-'' @ format_05d (int (Suc n)) \<in>
      set (map (\<lambda>i. ''K-'' @ format_05d (int i)) [1..<Suc n])"
    by simp
  then obtain i where i: "i \<in> set [1..<Suc n]"
      and eq: "''K-'' @ format_05d (int (Suc n)) = ''K-'' @ format_05d (int i)"
    unfolding set_map by blast
  from eq have "format_05d (int (Suc n)) = format_05d (int i)"
    by (simp only: same_append_eq)
  then have "Suc n = i" by (rule format_05d_inj)
  with i show False by simp
qed

lemma auto_filled_rowid:
  assumes "auto_filled n st"
  shows "next_rowid (clients_seq st) (map c_id (clients_table st)) = int (Suc n)"
proof -
  from assms have ids: "map c_id (clients_table st) = map int [1..<Suc n]"
    and seq: "clients_seq st = int n"
    unfolding auto_filled_def by blast+
  have "sql_max (map c_id (clients_table st)) = (if n = 0 then None else Some (int n))"
    unfolding ids by (rule sql_max_upto)
  then show ?thesis
    by (simp add: next_rowid_def seq)
qed

lemma auto_filled_save:
  assumes "auto_filled n st"
      and "dict_get data ''kundennummer'' = None \<or> dict_get data ''kundennummer'' = Some []"
  shows "\<exists>st'. save_client st data extra = (None, st') \<and> auto_filled (Suc n) st'"
proof -
  have kn: "chosen_kundennummer st data = ''K-'' @ format_05d (int (Suc n))"
    using chosen_kundennummer_auto [OF assms(2)] auto_filled_next [OF assms(1)] by simp
  let ?st' = "st\<lparr>clients_table := clients_table st @ [inserted_row st data extra],
                clients_seq := c_id (inserted_row st data extra)\<rparr>"
  have saved: "save_client st data extra = (None, ?st')"
    using auto_filled_fresh [OF assms(1)] by (simp add: save_client_eq kn)
  have id: "c_id (inserted_row st data extra) = int (Suc n)"
    using auto_filled_rowid [OF assms(1)] by (simp add: inserted_row_def)
  have k: "c_kundennummer (inserted_row st data extra) = ''K-'' @ format_05d (int (Suc n))"
    using kn by (simp add: inserted_row_def)
  have "auto_filled (Suc n) ?st'"
    using assms(1) unfolding auto_filled_def by (simp add: id k)
  with saved show ?thesis by blast
qed

lemma auto_filled_save_all:
  assumes "auto_filled n st"
      and "\<forall>(data, extra_fields)\<in>set reqs.
             dict_get data ''kundennummer'' = None \<or> dict_get data ''kundennummer'' = Some []"
  shows "\<exists>st'. save_all st reqs = (None, st') \<and> auto_filled (n + length reqs) st'"
  using assms
proof (induction reqs arbitrary: n st)
  case Nil
  then show ?case by simp
next
  case (Cons req reqs)
  obtain data extra where req: "req = (data, extra)" by (cases req)
  from Cons.prems req
  have "dict_get data ''kundennummer'' = None \<or> dict_get data ''kundennummer'' = Some []"
    by auto
  from auto_filled_save [OF Cons.prems(1) this]
  obtain st1 where st1: "save_client st data extra = (None, st1)" "auto_filled (Suc n) st1"
    by blast
  from Cons.IH [OF st1(2)] Cons.prems(2)
  obtain st' where "save_all st1 reqs = (None, st')" "auto_filled (Suc n + length reqs) st'"
    by auto
  then show ?case by (simp add: req st1(1))
qed

lemma auto_filled_empty: "clients_table st = [] \<Longrightarrow> clients_seq st = 0 \<Longrightarrow> auto_filled 0 st"
  by (simp add: auto_filled_def)

lemma auto_filled_length: "auto_filled n st \<Longrightarrow> length (clients_table st) = n"
proof -
  assume "auto_filled n st"
  then have "length (map c_id (clients_table st)) = length (map int [1..<Suc n])"
    unfolding auto_filled_def by simp
  then show ?thesis by simp
qed

lemma fold_max_upto: "fold max [1..<Suc n] (0::nat) = n"
  by (induction n) simp_all

lemma auto_filled_spec:
  assumes "auto_filled n st"
  shows "spec_next_identifier st = next_kundennummer st"
proof -
  have "map (numeric_suffix \<circ> c_kundennummer) (clients_table st) =
          map numeric_suffix (map c_kundennummer (clients_table st))"
    by simp
  also have "\<dots> = map numeric_suffix (map (\<lambda>i. ''K-'' @ format_05d (int i)) [1..<Suc n])"
    using assms unfolding auto_filled_def by simp
  also have "\<dots> = [1..<Suc n]"
    by (simp only: map_map comp_def numeric_suffix_generated map_ident)
  finally have "fold max (map (numeric_suffix \<circ> c_kundennummer) (clients_table st)) 0 = n"
    by (simp only: fold_max_upto)
  then show ?thesis
    by (simp only: spec_next_identifier_def auto_filled_next [OF assms] format_05d_int Suc_eq_plus1)
qed

text \<open>
  C8. On a store without client rows \<open>next_kundennummer\<close> is \<open>K-00001\<close>. Starting from
  the empty store, any \<open>N\<close> saves that leave the identifier to the store all succeed, and
  afterwards \<open>next_kundennummer\<close> is \<open>K-\<close> followed by \<open>N + 1\<close> in decimal, padded with
  zeros to five digits: the text after \<open>K-\<close> consists of digits, denotes \<open>N + 1\<close>, and
  has exactly five characters as long as \<open>N + 1\<close> is below 100000.
\<close>

theorem next_kundennummer_sequence:
  assumes "clients_table st = []" and "clients_seq st = 0"
      and "\<forall>(data, extra_fields)\<in>set reqs.
             dict_get data ''kundennummer'' = None \<or> dict_get data ''kundennummer'' = Some []"
  shows "next_kundennummer st = ''K-00001'' \<and>
         (\<exists>st'. save_all st reqs = (None, st') \<and>
                length (clients_table st') = length reqs \<and>
                next_kundennummer st' = ''K-'' @ zfill 5 (decimal (length reqs + 1))) \<and>
         (\<forall>c\<in>set (zfill 5 (decimal (length reqs + 1))). is_digit c) \<and>
         undecimal (zfill 5 (decimal (length reqs + 1))) = length reqs + 1 \<and>
         (length reqs + 1 < 100000 \<longrightarrow> length (zfill 5 (decimal (length reqs + 1))) = 5)"
proof -
  have first: "next_kundennummer st = ''K-00001''"
    using assms(1) by (rule next_kundennummer_empty)
  from auto_filled_save_all [OF auto_filled_empty [OF assms(1,2)] assms(3)]
  obtain st' where st': "save_all st reqs = (None, st')" "auto_filled (length reqs) st'"
    by auto
  have "next_kundennummer st' = ''K-'' @ zfill 5 (decimal (length reqs + 1))"
    using auto_filled_next [OF st'(2)] by (simp only: format_05d_int Suc_eq_plus1)
  with st' have seq: "\<exists>st'. save_all st reqs = (None, st') \<and>
                length (clients_table st') = length reqs \<and>
                next_kundennummer st' = ''K-'' @ zfill 5 (decimal (length reqs + 1))"
    using auto_filled_length by blast
  have digits: "\<forall>c\<in>set (zfill 5 (decimal (length reqs + 1))). is_digit c"
    by (rule is_digit_zfill [OF is_digit_decimal])
  have val: "undecimal (zfill 5 (decimal (length reqs + 1))) = length reqs + 1"
    by (simp add: undecimal_zfill undecimal_decimal)
  have len: "length reqs + 1 < 100000 \<longrightarrow> length (zfill 5 (decimal (length reqs + 1))) = 5"
  proof
    assume "length reqs + 1 < 100000"
    then have "length (decimal (length reqs + 1)) \<le> 5"
      by (intro length_decimal) simp_all
    then show "length (zfill 5 (decimal (length reqs + 1))) = 5"
      by (simp add: length_zfill)
  qed
  from first seq digits val len show ?thesis by blast
qed

theorem next_kundennummer_sequence_witness:
  "clients_table init_db = [] \<and> clients_seq init_db = 0 \<and>
   next_kundennummer init_db = ''K-00001'' \<and>
   (\<exists>st'. save_all init_db [(example_data, example_extra), ([(''name'', ''Bernd'')], [])] =
            (None, st') \<and>
          length (clients_table st') = 2 \<and>
          next_kundennummer st' = ''K-00003'')"
proof -
  let ?reqs = "[(example_data, example_extra), ([(''name'', ''Bernd'')], [])]"
  have e: "clients_table init_db = []" and s: "clients_seq init_db = 0"
    by (simp_all add: init_db_def)
  have auto: "\<forall>(data, extra_fields)\<in>set ?reqs.
             dict_get data ''kundennummer'' = None \<or> dict_get data ''kundennummer'' = Some []"
    by (simp add: example_data_def dict_get_def)
  have len: "length ?reqs = 2"
    by simp
  have three: "''K-'' @ zfill 5 (decimal (2 + 1)) = ''K-00003''"
    by code_simp
  from next_kundennummer_sequence [OF e s auto]
  obtain st' where first: "next_kundennummer init_db = ''K-00001''"
    and st': "save_all init_db ?reqs = (None, st')"
      "length (clients_table st') = length ?reqs"
      "next_kundennummer st' = ''K-'' @ zfill 5 (decimal (length ?reqs + 1))"
    by blast
  from st'(2) have l2: "length (clients_table st') = 2"
    by (simp only: len)
  from st'(3) have k3: "next_kundennummer st' = ''K-00003''"
    by (simp only: len three)
  from e s first st'(1) l2 k3 show ?thesis by blast
qed

text \<open>
  C1, as the code has it. \<open>next_kundennummer\<close> is \<open>K-00001\<close> when there is no client row.
  Otherwise, with the positive row ids the store hands out, it is \<open>K-\<close> followed by one
  more than the highest row id, in decimal and padded with zeros to five digits. The
  identifiers stored are not read: the result is one more than the highest numeric suffix
  when every stored identifier was generated by saves into the empty store.
\<close>

theorem next_kundennummer_row_id:
  "(clients_table st = [] \<longrightarrow> next_kundennummer st = ''K-00001'') \<and>
   (clients_table st \<noteq> [] \<and> (\<forall>row\<in>set (clients_table st). 0 < c_id row) \<longrightarrow>
      next_kundennummer st =
        ''K-'' @ zfill 5 (decimal (nat (Max (c_id ` set (clients_table st))) + 1))) \<and>
   (\<forall>st0 reqs.
      clients_table st0 = [] \<and> clients_seq st0 = 0 \<and>
      (\<forall>(data, extra_fields)\<in>set reqs.
         dict_get data ''kundennummer'' = None \<or> dict_get data ''kundennummer'' = Some []) \<and>
      save_all st0 reqs = (None, st) \<longrightarrow>
      next_kundennummer st = spec_next_identifier st)"
proof (intro conjI allI impI)
  assume "clients_table st = []"
  then show "next_kundennummer st = ''K-00001''" by (rule next_kundennummer_empty)
next
  assume a: "clients_table st \<noteq> [] \<and> (\<forall>row\<in>set (clients_table st). 0 < c_id row)"
  let ?m = "Max (c_id ` set (clients_table st))"
  have mx: "sql_max (map c_id (clients_table st)) = Some ?m"
    using a sql_max_Max [of "map c_id (clients_table st)"] by simp
  have "?m \<in> c_id ` set (clients_table st)"
    using a by (intro Max_in) simp_all
  then obtain row where "row \<in> set (clients_table st)" "c_id row = ?m"
    by (auto simp: image_iff)
  with a have pos: "0 < ?m" by metis
  then have "or_zero (sql_max (map c_id (clients_table st))) + 1 = int (nat ?m + 1)"
    by (simp add: mx or_zero_def)
  then show "next_kundennummer st = ''K-'' @ zfill 5 (decimal (nat ?m + 1))"
    by (simp only: next_kundennummer_def Let_def format_05d_int)
next
  fix st0 reqs
  assume a: "clients_table st0 = [] \<and> clients_seq st0 = 0 \<and>
      (\<forall>(data, extra_fields)\<in>set reqs.
         dict_get data ''kundennummer'' = None \<or> dict_get data ''kundennummer'' = Some []) \<and>
      save_all st0 reqs = (None, st)"
  then have "auto_filled 0 st0" by (simp add: auto_filled_empty)
  from auto_filled_save_all [OF this, of reqs] a
  have "auto_filled (length reqs) st" by auto
  then show "next_kundennummer st = spec_next_identifier st"
    by (simp add: auto_filled_spec)
qed

theorem next_kundennummer_row_id_witness:
  "clients_table example_store \<noteq> [] \<and>
   0 < c_id (hd (clients_table example_store)) \<and>
   next_kundennummer example_store = ''K-00002'' \<and>
   save_all init_db [(example_data, example_extra)] = (None, example_store) \<and>
   next_kundennummer example_store = spec_next_identifier example_store \<and>
   next_kundennummer init_db = ''K-00001''"
proof -
  have ne: "clients_table example_store \<noteq> []" and pos: "0 < c_id (hd (clients_table example_store))"
    and allpos: "\<forall>row\<in>set (clients_table example_store). 0 < c_id row"
    by (simp_all add: example_store_eq)
  have two: "''K-'' @ zfill 5 (decimal (nat (Max (c_id ` set (clients_table example_store))) + 1)) =
               ''K-00002''"
  proof -
    have "nat (Max (c_id ` set (clients_table example_store))) = 1"
      by (simp add: example_store_eq)
    moreover have "''K-'' @ zfill 5 (decimal (1 + 1)) = ''K-00002''" by code_simp
    ultimately show ?thesis by (simp only:)
  qed
  have sv: "save_all init_db [(example_data, example_extra)] = (None, example_store)"
    by (simp add: example_saved)
  have auto: "\<forall>(data, extra_fields)\<in>set [(example_data, example_extra)].
         dict_get data ''kundennummer'' = None \<or> dict_get data ''kundennummer'' = Some []"
    by (simp add: example_data_def dict_get_def)
  have e: "clients_table init_db = []" "clients_seq init_db = 0"
    by (simp_all add: init_db_def)
  note r = next_kundennummer_row_id [of example_store]
  from r ne allpos two have a: "next_kundennummer example_store = ''K-00002''"
    by simp
  from r e auto sv have b: "next_kundennummer example_store = spec_next_identifier example_store"
    by blast
  from next_kundennummer_row_id [of init_db] e
  have c: "next_kundennummer init_db = ''K-00001''" by blast
  from ne pos a sv b c show ?thesis by blast
qed

text \<open>
  C1 as stated fails once a caller has supplied an identifier: after saving one record
  under \<open>K-00050\<close> into the empty store, the highest numeric suffix is 50, while the next
  identifier generated is \<open>K-00002\<close>.
\<close>

theorem next_kundennummer_counterexample:
  "next_kundennummer
     (snd (save_client init_db [(''kundennummer'', ''K-00050''), (''name'', ''Bernd'')] [])) =
     ''K-00002'' \<and>
   spec_next_identifier
     (snd (save_client init_db [(''kundennummer'', ''K-00050''), (''name'', ''Bernd'')] [])) =
     ''K-00051''"
  by code_simp

section \<open>Properties of the document exporter\<close>

lemma fold_emit: "fold emit ops pdf = pdf\<lparr>cv_code := cv_code pdf @ ops\<rparr>"
  by (induction ops arbitrary: pdf) (simp_all add: emit_def)

lemma fold_strokes:
  "fold (\<lambda>stroke pdf. fold emit (stroke_lines y stroke) pdf) strokes pdf =
     pdf\<lparr>cv_code := cv_code pdf @ concat (map (stroke_lines y) strokes)\<rparr>"
  by (induction strokes arbitrary: pdf) (simp_all add: fold_emit)

lemma drawn_strings_append: "drawn_strings (xs @ ys) = drawn_strings xs @ drawn_strings ys"
  by (induction xs rule: drawn_strings.induct) simp_all

lemma drawn_lines_append: "drawn_lines (xs @ ys) = drawn_lines xs @ drawn_lines ys"
  by (induction xs rule: drawn_lines.induct) simp_all

lemma drawn_stroke_lines:
  "drawn_strings (stroke_lines y stroke) = [] \<and>
   drawn_lines (stroke_lines y stroke) = stroke_lines y stroke"
proof -
  have "drawn_strings (map (\<lambda>i. Line (a i) (b i) (c i) (d i)) xs) = [] \<and>
        drawn_lines (map (\<lambda>i. Line (a i) (b i) (c i) (d i)) xs) =
          map (\<lambda>i. Line (a i) (b i) (c i) (d i)) xs"
    for a b c d :: "nat \<Rightarrow> rat" and xs
    by (induction xs) simp_all
  then show ?thesis
    by (simp add: stroke_lines_def Let_def)
qed

lemma drawn_signature:
  "drawn_strings (concat (map (stroke_lines y) strokes)) = [] \<and>
   drawn_lines (concat (map (stroke_lines y) strokes)) = concat (map (stroke_lines y) strokes)"
  by (induction strokes)
     (simp_all add: drawn_strings_append drawn_lines_append drawn_stroke_lines)

text \<open>
  C3, as the code has it. Without a destination path the contract export produces
  nothing. With one it writes a document of a single A4 page and shows one information
  notice. The page carries the title \<open>Vertrag\<close> 60 points below the top edge, then seven
  label and value lines (identifier, name, address, birth date, care grade, insurance
  number, care insurance) starting 20 points below the title with a pitch of 16 points,
  the fixed sentence 30 points below the last of them, the heading \<open>Signatur\<close> 40 points
  further down, and the segments of the strokes drawn from 10 points below that. Company
  name, logo path and accent colour have no effect on the result.
\<close>

theorem export_pdf_layout:
  "export_pdf self [] = (None, []) \<and>
   (file_path \<noteq> [] \<longrightarrow>
      (\<exists>pdf page.
         export_pdf self file_path =
           (Some pdf, [ShowInfo ''Erfolg'' (''PDF gespeichert: '' @ file_path)]) \<and>
         cv_filename pdf = file_path \<and> cv_pagesize pdf = A4 \<and>
         cv_pages pdf = [page] \<and> cv_code pdf = [] \<and>
         drawn_strings page =
           [(50, snd A4 - 60, ''Vertrag''),
            (50, snd A4 - 80, ''Kundennummer: '' @ dict_get_or (w_client self) ''kundennummer'' []),
            (50, snd A4 - 96, ''Name: '' @ dict_get_or (w_client self) ''name'' []),
            (50, snd A4 - 112,
               ''Adresse: '' @ dict_get_or (w_client self) ''strasse'' [] @ '', '' @
               dict_get_or (w_client self) ''plz'' [] @ '' '' @
               dict_get_or (w_client self) ''ort'' []),
            (50, snd A4 - 128, ''Geburtsdatum: '' @ dict_get_or (w_client self) ''geburtsdatum'' []),
            (50, snd A4 - 144, ''Pflegegrad: '' @ dict_get_or (w_client self) ''pg'' []),
            (50, snd A4 - 160,
               ''Versicherungs-Nr.: '' @ dict_get_or (w_client self) ''versicherungsnummer'' []),
            (50, snd A4 - 176, ''Pflegekasse: '' @ dict_get_or (w_client self) ''pflegekasse'' []),
            (50, snd A4 - 206,
               ''Mit der Unterzeichnung best'' @ [CHR 0xC3, CHR 0xA4] @
               ''tigen beide Parteien den Vertrag.''),
            (50, snd A4 - 246, ''Signatur'')] \<and>
         drawn_lines page = concat (map (stroke_lines (snd A4 - 256)) (w_strokes self)))) \<and>
   export_pdf (self\<lparr>w_company_name := company, w_logo_path := logo, w_accent_color := accent\<rparr>)
       file_path =
     export_pdf self file_path"
proof (intro conjI impI)
  show "export_pdf self [] = (None, [])"
    by (simp add: export_pdf_def)
next
  show "export_pdf (self\<lparr>w_company_name := company, w_logo_path := logo, w_accent_color := accent\<rparr>)
       file_path = export_pdf self file_path"
    by (simp add: export_pdf_def)
next
  assume ne: "file_path \<noteq> []"
  obtain width height where a4: "A4 = (width, height)" by (cases A4)
  let ?text =
    "[SetFont ''Helvetica-Bold'' 14,
      SetFillColorRGB (12 / 100) (16 / 100) (22 / 100),
      DrawString 50 (height - 60) ''Vertrag'',
      SetFont ''Helvetica'' 10,
      DrawString 50 (height - 80)
        (''Kundennummer: '' @ dict_get_or (w_client self) ''kundennummer'' []),
      DrawString 50 (height - 96) (''Name: '' @ dict_get_or (w_client self) ''name'' []),
      DrawString 50 (height - 112)
        (''Adresse: '' @ dict_get_or (w_client self) ''strasse'' [] @ '', '' @
         dict_get_or (w_client self) ''plz'' [] @ '' '' @ dict_get_or (w_client self) ''ort'' []),
      DrawString 50 (height - 128)
        (''Geburtsdatum: '' @ dict_get_or (w_client self) ''geburtsdatum'' []),
      DrawString 50 (height - 144) (''Pflegegrad: '' @ dict_get_or (w_client self) ''pg'' []),
      DrawString 50 (height - 160)
        (''Versicherungs-Nr.: '' @ dict_get_or (w_client self) ''versicherungsnummer'' []),
      DrawString 50 (height - 176)
        (''Pflegekasse: '' @ dict_get_or (w_client self) ''pflegekasse'' []),
      DrawString 50 (height - 206)
        (''Mit der Unterzeichnung best'' @ [CHR 0xC3, CHR 0xA4] @
         ''tigen beide Parteien den Vertrag.''),
      SetFont ''Helvetica-Bold'' 12,
      DrawString 50 (height - 246) ''Signatur'',
      SetLineWidth 2]"
  let ?page = "?text @ concat (map (stroke_lines (height - 256)) (w_strokes self))"
  let ?pdf = "\<lparr>cv_filename = file_path, cv_pagesize = (width, height), cv_code = [],
               cv_pages = [?page]\<rparr>"
  have run: "export_pdf self file_path =
               (Some ?pdf, [ShowInfo ''Erfolg'' (''PDF gespeichert: '' @ file_path)])"
    using ne
    by (simp add: export_pdf_def a4 Let_def Canvas_def emit_def fold_strokes showPage_def save_def)
  have strings: "drawn_strings ?page =
           [(50, height - 60, ''Vertrag''),
            (50, height - 80, ''Kundennummer: '' @ dict_get_or (w_client self) ''kundennummer'' []),
            (50, height - 96, ''Name: '' @ dict_get_or (w_client self) ''name'' []),
            (50, height - 112,
               ''Adresse: '' @ dict_get_or (w_client self) ''strasse'' [] @ '', '' @
               dict_get_or (w_client self) ''plz'' [] @ '' '' @
               dict_get_or (w_client self) ''ort'' []),
            (50, height - 128, ''Geburtsdatum: '' @ dict_get_or (w_client self) ''geburtsdatum'' []),
            (50, height - 144, ''Pflegegrad: '' @ dict_get_or (w_client self) ''pg'' []),
            (50, height - 160,
               ''Versicherungs-Nr.: '' @ dict_get_or (w_client self) ''versicherungsnummer'' []),
            (50, height - 176, ''Pflegekasse: '' @ dict_get_or (w_client self) ''pflegekasse'' []),
            (50, height - 206,
               ''Mit der Unterzeichnung best'' @ [CHR 0xC3, CHR 0xA4] @
               ''tigen beide Parteien den Vertrag.''),
            (50, height - 246, ''Signatur'')]"
    by (simp add: drawn_strings_append drawn_signature)
  have lines: "drawn_lines ?page = concat (map (stroke_lines (height - 256)) (w_strokes self))"
    by (simp add: drawn_lines_append drawn_signature)
  show "\<exists>pdf page.
         export_pdf self file_path =
           (Some pdf, [ShowInfo ''Erfolg'' (''PDF gespeichert: '' @ file_path)]) \<and>
         cv_filename pdf = file_path \<and> cv_pagesize pdf = A4 \<and>
         cv_pages pdf = [page] \<and> cv_code pdf = [] \<and>
         drawn_strings page =
           [(50, snd A4 - 60, ''Vertrag''),
            (50, snd A4 - 80, ''Kundennummer: '' @ dict_get_or (w_client self) ''kundennummer'' []),
            (50, snd A4 - 96, ''Name: '' @ dict_get_or (w_client self) ''name'' []),
            (50, snd A4 - 112,
               ''Adresse: '' @ dict_get_or (w_client self) ''strasse'' [] @ '', '' @
               dict_get_or (w_client self) ''plz'' [] @ '' '' @
               dict_get_or (w_client self) ''ort'' []),
            (50, snd A4 - 128, ''Geburtsdatum: '' @ dict_get_or (w_client self) ''geburtsdatum'' []),
            (50, snd A4 - 144, ''Pflegegrad: '' @ dict_get_or (w_client self) ''pg'' []),
            (50, snd A4 - 160,
               ''Versicherungs-Nr.: '' @ dict_get_or (w_client self) ''versicherungsnummer'' []),
            (50, snd A4 - 176, ''Pflegekasse: '' @ dict_get_or (w_client self) ''pflegekasse'' []),
            (50, snd A4 - 206,
               ''Mit der Unterzeichnung best'' @ [CHR 0xC3, CHR 0xA4] @
               ''tigen beide Parteien den Vertrag.''),
            (50, snd A4 - 246, ''Signatur'')] \<and>
         drawn_lines page = concat (map (stroke_lines (snd A4 - 256)) (w_strokes self))"
    apply (rule exI [of _ ?pdf])
    apply (rule exI [of _ ?page])
    apply (intro conjI)
          apply (rule run)
         apply simp
        apply (simp add: a4)
       apply simp
      apply simp
     apply (simp only: a4 snd_conv strings)
    apply (simp only: a4 snd_conv lines)
    done
qed

theorem export_pdf_layout_witness:
  "''vertrag.pdf'' \<noteq> [] \<and>
   (\<exists>pdf page.
      export_pdf example_window ''vertrag.pdf'' =
        (Some pdf, [ShowInfo ''Erfolg'' ''PDF gespeichert: vertrag.pdf'']) \<and>
      cv_pagesize pdf = A4 \<and> cv_pages pdf = [page] \<and>
      length (drawn_strings page) = 10 \<and>
      drawn_lines page = concat (map (stroke_lines (snd A4 - 256)) (w_strokes example_window))) \<and>
   export_pdf (example_window\<lparr>w_company_name := [], w_logo_path := [], w_accent_color := []\<rparr>)
       ''vertrag.pdf'' =
     export_pdf example_window ''vertrag.pdf''"
proof -
  have ne: "''vertrag.pdf'' \<noteq> []" by simp
  note layout = export_pdf_layout [of example_window "''vertrag.pdf''" "[]" "[]" "[]"]
  from layout ne obtain pdf page where p:
      "export_pdf example_window ''vertrag.pdf'' =
         (Some pdf, [ShowInfo ''Erfolg'' (''PDF gespeichert: '' @ ''vertrag.pdf'')])"
      "cv_pagesize pdf = A4" "cv_pages pdf = [page]"
      "length (drawn_strings page) = 10"
      "drawn_lines page = concat (map (stroke_lines (snd A4 - 256)) (w_strokes example_window))"
    by auto
  from layout have same:
    "export_pdf (example_window\<lparr>w_company_name := [], w_logo_path := [], w_accent_color := []\<rparr>)
       ''vertrag.pdf'' = export_pdf example_window ''vertrag.pdf''"
    by blast
  from p(1) have "export_pdf example_window ''vertrag.pdf'' =
        (Some pdf, [ShowInfo ''Erfolg'' ''PDF gespeichert: vertrag.pdf''])"
    by simp
  with ne p(2-5) same show ?thesis by blast
qed

text \<open>
  C3 as stated fails: for a window whose company name is set, the page has seven label
  and value lines between the title and the fixed sentence, and no line for the company.
\<close>

theorem export_pdf_counterexample:
  "w_company_name example_window = ''Pflege GmbH'' \<and>
   map (snd \<circ> snd)
     (drawn_strings (hd (cv_pages (the (fst (export_pdf example_window ''vertrag.pdf'')))))) =
     [''Vertrag'',
      ''Kundennummer: K-00001'',
      ''Name: Anna'',
      ''Adresse: ,  Kiel'',
      ''Geburtsdatum: '',
      ''Pflegegrad: '',
      ''Versicherungs-Nr.: '',
      ''Pflegekasse: '',
      ''Mit der Unterzeichnung best'' @ [CHR 0xC3, CHR 0xA4] @ ''tigen beide Parteien den Vertrag.'',
      ''Signatur'']"
  by code_simp

end
